theory Spec2Isabelle
  imports Complex_Main "HOL-Library.Char_ord" "HOL-Library.List_Lexorder" "HOL-Library.Log_Nat"
begin

section \<open>Floating-point cells\<close>

text \<open>
  A numeric cell of a pandas table is a Python float, an IEEE 754 double: a finite value,
  one of the two infinities, or NaN, which pandas also uses for a missing value. The
  result of an arithmetic operation is the exact result rounded to the nearest double
  (ties to even), which is an infinity when it is too large. The sign of zero is
  left out.
\<close>

datatype pyfloat = Fin real | PInf | NInf | NaN

text \<open>
  Rounding to a double. \<open>binade x\<close> is the exponent of the power of two at or below
  \<open>\<bar>x\<bar>\<close>. A double has 53 significant bits and exponents down to \<open>-1022\<close>, so
  the doubles near \<open>x\<close> are the multiples of \<open>2\<close> to the power
  \<open>max (binade x) (-1022) - 52\<close>. The largest double is \<open>2\<^sup>1\<^sup>0\<^sup>2\<^sup>4 - 2\<^sup>9\<^sup>7\<^sup>1\<close>; a
  value at or beyond \<open>2\<^sup>1\<^sup>0\<^sup>2\<^sup>4 - 2\<^sup>9\<^sup>7\<^sup>0\<close>, halfway to the next power of two, rounds to
  an infinity.
\<close>

definition pow2 :: "int \<Rightarrow> real" where
  "pow2 e = (if 0 \<le> e then 2 ^ nat e else 1 / 2 ^ nat (- e))"

definition binade :: "real \<Rightarrow> int" where
  "binade x =
     (if 1 \<le> \<bar>x\<bar> then int (floorlog 2 (nat \<lfloor>\<bar>x\<bar>\<rfloor>)) - 1
      else - int (floorlog 2 (nat \<lceil>1 / \<bar>x\<bar>\<rceil> - 1)))"

definition round_half_even :: "real \<Rightarrow> int" where
  "round_half_even y =
     (let f = \<lfloor>y\<rfloor>; d = y - of_int f
      in if d < 1 / 2 then f else if 1 / 2 < d then f + 1 else if even f then f else f + 1)"

definition round64 :: "real \<Rightarrow> pyfloat" where
  "round64 x =
     (if x = 0 then Fin 0
      else if 2 ^ 1024 - 2 ^ 970 \<le> \<bar>x\<bar> then (if 0 < x then PInf else NInf)
      else let ulp = pow2 (max (binade x) (- 1022) - 52)
           in Fin (of_int (round_half_even (x / ulp)) * ulp))"

text \<open>Python's \<^verbatim>\<open>a < b\<close> on floats: every comparison with NaN is false.\<close>

fun float_lt :: "pyfloat \<Rightarrow> pyfloat \<Rightarrow> bool" where
  "float_lt (Fin x) (Fin y) = (x < y)"
| "float_lt (Fin x) PInf = True"
| "float_lt (Fin x) NInf = False"
| "float_lt (Fin x) NaN = False"
| "float_lt PInf b = False"
| "float_lt NInf (Fin y) = True"
| "float_lt NInf PInf = True"
| "float_lt NInf NInf = False"
| "float_lt NInf NaN = False"
| "float_lt NaN b = False"

text \<open>
  Float division as numpy performs it on a column: the quotient is rounded, dividing by
  zero gives an infinity (NaN for \<open>0 / 0\<close>) instead of raising, and NaN propagates.
\<close>

fun fdiv :: "pyfloat \<Rightarrow> pyfloat \<Rightarrow> pyfloat" where
  "fdiv (Fin x) (Fin y) =
     (if y = 0 then (if x = 0 then NaN else if 0 < x then PInf else NInf)
      else round64 (x / y))"
| "fdiv (Fin x) PInf = Fin 0"
| "fdiv (Fin x) NInf = Fin 0"
| "fdiv PInf (Fin y) = (if 0 \<le> y then PInf else NInf)"
| "fdiv NInf (Fin y) = (if 0 \<le> y then NInf else PInf)"
| "fdiv PInf PInf = NaN"
| "fdiv PInf NInf = NaN"
| "fdiv NInf PInf = NaN"
| "fdiv NInf NInf = NaN"
| "fdiv NaN b = NaN"
| "fdiv (Fin x) NaN = NaN"
| "fdiv PInf NaN = NaN"
| "fdiv NInf NaN = NaN"

fun fadd :: "pyfloat \<Rightarrow> pyfloat \<Rightarrow> pyfloat" where
  "fadd (Fin x) (Fin y) = round64 (x + y)"
| "fadd (Fin x) PInf = PInf"
| "fadd (Fin x) NInf = NInf"
| "fadd PInf (Fin y) = PInf"
| "fadd NInf (Fin y) = NInf"
| "fadd PInf PInf = PInf"
| "fadd NInf NInf = NInf"
| "fadd PInf NInf = NaN"
| "fadd NInf PInf = NaN"
| "fadd NaN b = NaN"
| "fadd (Fin x) NaN = NaN"
| "fadd PInf NaN = NaN"
| "fadd NInf NaN = NaN"

text \<open>Subtraction, multiplication and square root, as numpy computes an error measure.\<close>

fun fneg :: "pyfloat \<Rightarrow> pyfloat" where
  "fneg (Fin x) = Fin (- x)"
| "fneg PInf = NInf"
| "fneg NInf = PInf"
| "fneg NaN = NaN"

definition fsub :: "pyfloat \<Rightarrow> pyfloat \<Rightarrow> pyfloat" where
  "fsub a b = fadd a (fneg b)"

fun fmul :: "pyfloat \<Rightarrow> pyfloat \<Rightarrow> pyfloat" where
  "fmul (Fin x) (Fin y) = round64 (x * y)"
| "fmul (Fin x) PInf = (if x = 0 then NaN else if 0 < x then PInf else NInf)"
| "fmul (Fin x) NInf = (if x = 0 then NaN else if 0 < x then NInf else PInf)"
| "fmul PInf (Fin y) = (if y = 0 then NaN else if 0 < y then PInf else NInf)"
| "fmul NInf (Fin y) = (if y = 0 then NaN else if 0 < y then NInf else PInf)"
| "fmul PInf PInf = PInf"
| "fmul NInf NInf = PInf"
| "fmul PInf NInf = NInf"
| "fmul NInf PInf = NInf"
| "fmul NaN b = NaN"
| "fmul (Fin x) NaN = NaN"
| "fmul PInf NaN = NaN"
| "fmul NInf NaN = NaN"

fun fsqrt :: "pyfloat \<Rightarrow> pyfloat" where
  "fsqrt (Fin x) = (if x < 0 then NaN else round64 (sqrt x))"
| "fsqrt PInf = PInf"
| "fsqrt NInf = NaN"
| "fsqrt NaN = NaN"

text \<open>\<^verbatim>\<open>Series.replace(0, np.nan)\<close> on one cell.\<close>

definition replace_zero_nan :: "pyfloat \<Rightarrow> pyfloat" where
  "replace_zero_nan h = (if h = Fin 0 then NaN else h)"

section \<open>Tables\<close>

text \<open>
  A DataFrame is modelled as the list of its rows, each row a record of the columns the
  pipeline reads; a column expression such as \<^verbatim>\<open>df['A'] / df['B']\<close> is computed row
  by row. The tables are taken to have the columns the code names, with numeric columns
  holding floats.

  A cell of a categorical column is text, an integer, or missing.
\<close>

datatype category = Text string | Code int | Missing

datatype error =
    ParserError string \<comment> \<open>\<^verbatim>\<open>pd.to_datetime\<close> could not parse the string\<close>
  | UnseenLabel string \<comment> \<open>\<^verbatim>\<open>ValueError: y contains previously unseen labels\<close>\<close>
  | LengthMismatch nat nat \<comment> \<open>\<^verbatim>\<open>ValueError: Length of values does not match length of index\<close>\<close>
  | FormatMismatch string \<comment> \<open>\<^verbatim>\<open>ValueError: time data ... doesn't match format\<close>\<close>
  | MixedTimezones \<comment> \<open>\<^verbatim>\<open>TypeError: Cannot subtract tz-naive and tz-aware datetime-like objects\<close>\<close>
  | DifferenceOverflow \<comment> \<open>\<^verbatim>\<open>OverflowError: Overflow in int64 addition\<close>\<close>
  | NoneHasNoFit \<comment> \<open>\<^verbatim>\<open>AttributeError: 'NoneType' object has no attribute 'fit'\<close>\<close>


text \<open>A row of \<^verbatim>\<open>train.csv\<close> or \<^verbatim>\<open>test.csv\<close> as \<^verbatim>\<open>pd.read_csv\<close> returns it.\<close>

record 'x claim_record =
  DateTimeOfAccident :: "string option"
  DateReported :: "string option"
  WeeklyWages :: pyfloat
  HoursWorkedPerWeek :: pyfloat
  DaysWorkedPerWeek :: pyfloat
  DependentChildren :: pyfloat
  DependentsOther :: pyfloat
  Age :: pyfloat
  Gender :: category
  MaritalStatus :: category
  PartTimeFullTime :: category
  other_columns :: 'x

text \<open>
  A parsed timestamp: its position on the time line in nanoseconds, and the calendar
  fields the code reads from it.
\<close>

record datetime =
  epoch_ns :: int
  dt_month :: int
  dt_hour :: int

text \<open>
  What the parser of \<^verbatim>\<open>pd.to_datetime\<close> makes of one string taken on its own. The
  parser itself is pandas code and a parameter of the model.
\<close>

datatype parse_result = Stamp datetime | NaT | Unparsable

text \<open>
  pandas can also raise for a column as a whole although each of its cells parses, and
  for two parsed columns when it subtracts them: \<^verbatim>\<open>pd.to_datetime\<close> fixes one format
  per column and rejects a later cell in another format; a column with a timezone cannot
  be subtracted from one without; a difference beyond 64-bit nanoseconds overflows. What
  these checks raise is pandas code as well, and a parameter of the model:
  \<open>format_error\<close> sees the strings of one column, \<open>subtract_error\<close> the two parsed
  columns.
\<close>

record column_checks =
  format_error :: "string option list \<Rightarrow> error option"
  subtract_error :: "datetime option list \<Rightarrow> datetime option list \<Rightarrow> error option"

record 'x engineered_record =
  DateTimeOfAccident :: "datetime option"
  DateReported :: "datetime option"
  WeeklyWages :: pyfloat
  HoursWorkedPerWeek :: pyfloat
  DaysWorkedPerWeek :: pyfloat
  DependentChildren :: pyfloat
  DependentsOther :: pyfloat
  Age :: pyfloat
  Gender :: category
  MaritalStatus :: category
  PartTimeFullTime :: category
  ReportDelayDays :: pyfloat
  AccidentMonth :: pyfloat
  AccidentHour :: pyfloat
  WagePerHour :: pyfloat
  DependentsTotal :: pyfloat
  other_columns :: 'x

text \<open>A row of \<^verbatim>\<open>df[FEATURES]\<close>, the columns in the order of \<^verbatim>\<open>FEATURES\<close>.\<close>

record feature_row =
  Age :: pyfloat
  AccidentMonth :: pyfloat
  AccidentHour :: pyfloat
  ReportDelayDays :: pyfloat
  WeeklyWages :: pyfloat
  HoursWorkedPerWeek :: pyfloat
  DaysWorkedPerWeek :: pyfloat
  WagePerHour :: pyfloat
  DependentsTotal :: pyfloat
  Gender :: category
  MaritalStatus :: category
  PartTimeFullTime :: category

section \<open>Feature engineering\<close>

text \<open>
  \<^verbatim>\<open>
  def clean_and_engineer(df):
      df = df.copy()
      df['DateTimeOfAccident'] = pd.to_datetime(df['DateTimeOfAccident'])
      df['DateReported']       = pd.to_datetime(df['DateReported'])
      df['ReportDelayDays']    = (df['DateReported'] - df['DateTimeOfAccident']).dt.days
      df['AccidentMonth']      = df['DateTimeOfAccident'].dt.month
      df['AccidentHour']       = df['DateTimeOfAccident'].dt.hour
      df['WagePerHour']        = df['WeeklyWages'] / df['HoursWorkedPerWeek'].replace(0, np.nan)
      df['DependentsTotal']    = df['DependentChildren'] + df['DependentsOther']
      return df
  \<close>
  \<^verbatim>\<open>pd.to_datetime\<close> is called with its default \<^verbatim>\<open>errors='raise'\<close>: a missing cell
  becomes NaT, a string the parser rejects raises, and so does a column that fails the
  check of its format.
\<close>

definition parse_cell :: "(string \<Rightarrow> parse_result) \<Rightarrow> string option \<Rightarrow> error + datetime option" where
  "parse_cell parse c =
     (case c of
        None \<Rightarrow> Inr None
      | Some s \<Rightarrow>
          (case parse s of
             Stamp d \<Rightarrow> Inr (Some d)
           | NaT \<Rightarrow> Inr None
           | Unparsable \<Rightarrow> Inl (ParserError s)))"

fun parse_cells :: "(string \<Rightarrow> parse_result) \<Rightarrow> string option list \<Rightarrow> error + datetime option list" where
  "parse_cells parse [] = Inr []"
| "parse_cells parse (c # cs) =
     (case parse_cell parse c of
        Inl e \<Rightarrow> Inl e
      | Inr d \<Rightarrow>
          (case parse_cells parse cs of
             Inl e \<Rightarrow> Inl e
           | Inr ds \<Rightarrow> Inr (d # ds)))"

definition to_datetime ::
  "(string \<Rightarrow> parse_result) \<Rightarrow> column_checks \<Rightarrow> string option list \<Rightarrow>
   error + datetime option list" where
  "to_datetime parse checks cs =
     (case parse_cells parse cs of
        Inl e \<Rightarrow> Inl e
      | Inr ds \<Rightarrow>
          (case format_error checks cs of
             Some e \<Rightarrow> Inl e
           | None \<Rightarrow> Inr ds))"

definition ns_per_day :: int where
  "ns_per_day = 86400000000000"

text \<open>
  \<^verbatim>\<open>(reported - accident).dt.days\<close>: the \<^verbatim>\<open>days\<close> component of a pandas Timedelta
  is the floor of the difference in days (the remaining components are never negative),
  and it is NaN where either timestamp is NaT. This is the value in a row once the
  subtraction of the two columns has not raised.
\<close>

definition timedelta_days :: "int \<Rightarrow> int" where
  "timedelta_days delta_ns = delta_ns div ns_per_day"

definition report_delay_days :: "datetime option \<Rightarrow> datetime option \<Rightarrow> pyfloat" where
  "report_delay_days reported accident =
     (case (reported, accident) of
        (Some r, Some a) \<Rightarrow> Fin (of_int (timedelta_days (epoch_ns r - epoch_ns a)))
      | _ \<Rightarrow> NaN)"

definition dt_field :: "(datetime \<Rightarrow> int) \<Rightarrow> datetime option \<Rightarrow> pyfloat" where
  "dt_field f t = (case t of Some d \<Rightarrow> Fin (of_int (f d)) | None \<Rightarrow> NaN)"

definition engineer_row ::
  "'x claim_record \<Rightarrow> datetime option \<Rightarrow> datetime option \<Rightarrow> 'x engineered_record" where
  "engineer_row r accident reported =
     \<lparr>engineered_record.DateTimeOfAccident = accident,
      engineered_record.DateReported = reported,
      engineered_record.WeeklyWages = claim_record.WeeklyWages r,
      engineered_record.HoursWorkedPerWeek = claim_record.HoursWorkedPerWeek r,
      engineered_record.DaysWorkedPerWeek = claim_record.DaysWorkedPerWeek r,
      engineered_record.DependentChildren = claim_record.DependentChildren r,
      engineered_record.DependentsOther = claim_record.DependentsOther r,
      engineered_record.Age = claim_record.Age r,
      engineered_record.Gender = claim_record.Gender r,
      engineered_record.MaritalStatus = claim_record.MaritalStatus r,
      engineered_record.PartTimeFullTime = claim_record.PartTimeFullTime r,
      engineered_record.ReportDelayDays = report_delay_days reported accident,
      engineered_record.AccidentMonth = dt_field dt_month accident,
      engineered_record.AccidentHour = dt_field dt_hour accident,
      engineered_record.WagePerHour =
        fdiv (claim_record.WeeklyWages r) (replace_zero_nan (claim_record.HoursWorkedPerWeek r)),
      engineered_record.DependentsTotal =
        fadd (claim_record.DependentChildren r) (claim_record.DependentsOther r),
      engineered_record.other_columns = claim_record.other_columns r\<rparr>"

definition clean_and_engineer ::
  "(string \<Rightarrow> parse_result) \<Rightarrow> column_checks \<Rightarrow> 'x claim_record list \<Rightarrow>
   error + 'x engineered_record list" where
  "clean_and_engineer parse checks df =
     (case to_datetime parse checks (map claim_record.DateTimeOfAccident df) of
        Inl e \<Rightarrow> Inl e
      | Inr accident \<Rightarrow>
          (case to_datetime parse checks (map claim_record.DateReported df) of
             Inl e \<Rightarrow> Inl e
           | Inr reported \<Rightarrow>
               (case subtract_error checks reported accident of
                  Some e \<Rightarrow> Inl e
                | None \<Rightarrow>
                    Inr (map (\<lambda>(r, a, d). engineer_row r a d) (zip df (zip accident reported))))))"

text \<open>
  The delay the specification describes: the difference in days with the partial day
  truncated, that is, rounded toward zero.
\<close>

definition spec_truncated_days :: "int \<Rightarrow> int" where
  "spec_truncated_days delta_ns = sgn delta_ns * (\<bar>delta_ns\<bar> div ns_per_day)"

text \<open>\<^verbatim>\<open>df[FEATURES]\<close>\<close>

definition select_features :: "'x engineered_record \<Rightarrow> feature_row" where
  "select_features r =
     \<lparr>Age = engineered_record.Age r,
      AccidentMonth = engineered_record.AccidentMonth r,
      AccidentHour = engineered_record.AccidentHour r,
      ReportDelayDays = engineered_record.ReportDelayDays r,
      WeeklyWages = engineered_record.WeeklyWages r,
      HoursWorkedPerWeek = engineered_record.HoursWorkedPerWeek r,
      DaysWorkedPerWeek = engineered_record.DaysWorkedPerWeek r,
      WagePerHour = engineered_record.WagePerHour r,
      DependentsTotal = engineered_record.DependentsTotal r,
      Gender = engineered_record.Gender r,
      MaritalStatus = engineered_record.MaritalStatus r,
      PartTimeFullTime = engineered_record.PartTimeFullTime r\<rparr>"

section \<open>Encoding and imputation\<close>

text \<open>
  \<^verbatim>\<open>
  def encode_and_impute(X_train, X_test):
      cats = ['Gender', 'MaritalStatus', 'PartTimeFullTime']
      for col in cats:
          le = LabelEncoder()
          X_train[col] = le.fit_transform(X_train[col].astype(str))
          X_test[col]  = le.transform(X_test[col].astype(str))
      return X_train.fillna(0), X_test.fillna(0)
  \<close>
\<close>

function str_nat :: "nat \<Rightarrow> string" where
  "str_nat n =
     (if n < 10 then [''0123456789'' ! n]
      else str_nat (n div 10) @ [''0123456789'' ! (n mod 10)])"
  by pat_completeness auto
termination
  by (relation "measure id") auto

text \<open>\<^verbatim>\<open>astype(str)\<close> on one cell: a missing value becomes the text \<^verbatim>\<open>nan\<close>.\<close>

fun astype_str :: "category \<Rightarrow> string" where
  "astype_str (Text s) = s"
| "astype_str (Code i) = (if i < 0 then CHR ''-'' # str_nat (nat (- i)) else str_nat (nat i))"
| "astype_str Missing = ''nan''"

text \<open>
  scikit-learn's LabelEncoder on a column of strings: \<^verbatim>\<open>classes_\<close> is
  \<^verbatim>\<open>sorted(set(values))\<close>, the code of a value is its position there, and
  \<^verbatim>\<open>transform\<close> raises at the first value that is not among the classes.
\<close>

definition le_fit :: "string list \<Rightarrow> string list" where
  "le_fit vals = sort (remdups vals)"

definition label_index :: "string list \<Rightarrow> string \<Rightarrow> int" where
  "label_index classes v = int (length (takeWhile (\<lambda>c. c \<noteq> v) classes))"

definition le_transform :: "string list \<Rightarrow> string list \<Rightarrow> error + int list" where
  "le_transform classes vals =
     (case find (\<lambda>v. v \<notin> set classes) vals of
        Some v \<Rightarrow> Inl (UnseenLabel v)
      | None \<Rightarrow> Inr (map (label_index classes) vals))"

definition le_fit_transform :: "string list \<Rightarrow> string list \<times> int list" where
  "le_fit_transform vals = (let classes = le_fit vals in (classes, map (label_index classes) vals))"

text \<open>A column of the feature table: how to read it from a row and how to write it.\<close>

type_synonym cat_column =
  "(feature_row \<Rightarrow> category) \<times> ((category \<Rightarrow> category) \<Rightarrow> feature_row \<Rightarrow> feature_row)"

definition cats :: "cat_column list" where
  "cats = [(Gender, Gender_update), (MaritalStatus, MaritalStatus_update),
           (PartTimeFullTime, PartTimeFullTime_update)]"

definition get_column :: "cat_column \<Rightarrow> feature_row list \<Rightarrow> category list" where
  "get_column col X = map (fst col) X"

text \<open>\<^verbatim>\<open>X[col] = codes\<close>, for an array of codes as long as the table.\<close>

definition set_column :: "cat_column \<Rightarrow> int list \<Rightarrow> feature_row list \<Rightarrow> feature_row list" where
  "set_column col codes X = map (\<lambda>(r, c). snd col (\<lambda>_. Code c) r) (zip X codes)"

text \<open>
  The loop assigns into the two tables it was given. The model threads them through as
  state: the first component of the result is the pair of argument tables as the caller
  sees them afterwards, the second is an error if a \<^verbatim>\<open>transform\<close> raised.
\<close>

fun encode_columns ::
  "cat_column list \<Rightarrow> feature_row list \<times> feature_row list \<Rightarrow>
   (feature_row list \<times> feature_row list) \<times> error option" where
  "encode_columns [] (X_train, X_test) = ((X_train, X_test), None)"
| "encode_columns (col # cols) (X_train, X_test) =
     (let (classes, codes) = le_fit_transform (map astype_str (get_column col X_train));
          X_train' = set_column col codes X_train
      in case le_transform classes (map astype_str (get_column col X_test)) of
           Inl e \<Rightarrow> ((X_train', X_test), Some e)
         | Inr test_codes \<Rightarrow> encode_columns cols (X_train', set_column col test_codes X_test))"

text \<open>\<^verbatim>\<open>fillna(0)\<close> builds a new table in which every missing cell is zero.\<close>

definition fill_float :: "pyfloat \<Rightarrow> pyfloat" where
  "fill_float v = (if v = NaN then Fin 0 else v)"

definition fill_category :: "category \<Rightarrow> category" where
  "fill_category c = (if c = Missing then Code 0 else c)"

definition fillna_row :: "feature_row \<Rightarrow> feature_row" where
  "fillna_row r =
     \<lparr>Age = fill_float (Age r),
      AccidentMonth = fill_float (AccidentMonth r),
      AccidentHour = fill_float (AccidentHour r),
      ReportDelayDays = fill_float (ReportDelayDays r),
      WeeklyWages = fill_float (WeeklyWages r),
      HoursWorkedPerWeek = fill_float (HoursWorkedPerWeek r),
      DaysWorkedPerWeek = fill_float (DaysWorkedPerWeek r),
      WagePerHour = fill_float (WagePerHour r),
      DependentsTotal = fill_float (DependentsTotal r),
      Gender = fill_category (Gender r),
      MaritalStatus = fill_category (MaritalStatus r),
      PartTimeFullTime = fill_category (PartTimeFullTime r)\<rparr>"

definition fillna :: "feature_row list \<Rightarrow> feature_row list" where
  "fillna X = map fillna_row X"

definition encode_and_impute ::
  "feature_row list \<Rightarrow> feature_row list \<Rightarrow>
   (feature_row list \<times> feature_row list) \<times> (error + feature_row list \<times> feature_row list)" where
  "encode_and_impute X_train X_test =
     (case encode_columns cats (X_train, X_test) of
        (args, Some e) \<Rightarrow> (args, Inl e)
      | ((X_train', X_test'), None) \<Rightarrow> ((X_train', X_test'), Inr (fillna X_train', fillna X_test')))"

text \<open>The numeric columns of the feature table, for statements about all of them.\<close>

definition float_columns :: "(feature_row \<Rightarrow> pyfloat) list" where
  "float_columns = [Age, AccidentMonth, AccidentHour, ReportDelayDays, WeeklyWages,
                    HoursWorkedPerWeek, DaysWorkedPerWeek, WagePerHour, DependentsTotal]"

definition category_columns :: "(feature_row \<Rightarrow> category) list" where
  "category_columns = map fst cats"

section \<open>Model comparison\<close>

text \<open>
  \<^verbatim>\<open>
  def compare_models(X_tr, y_tr, X_val, y_val):
      model_defs = {'GradientBoosting': ..., 'RandomForest': ..., 'CatBoost': ...}
      best_rmse  = float('inf')
      best_model = None
      best_name  = None
      for name, (estimator, grid) in model_defs.items():
          search = GridSearchCV(estimator, grid, ...)
          search.fit(X_tr, y_tr)
          y_pred = search.predict(X_val)
          rmse = np.sqrt(mean_squared_error(y_val, y_pred))
          if rmse < best_rmse:
              best_rmse  = rmse
              best_model = search.best_estimator_
              best_name  = name
      return best_model, best_rmse
  \<close>
  The three families are the keys of \<^verbatim>\<open>model_defs\<close>, iterated in insertion order.
\<close>

datatype family = GradientBoosting | RandomForest | CatBoost

definition model_defs :: "family list" where
  "model_defs = [GradientBoosting, RandomForest, CatBoost]"

text \<open>
  The estimators come from scikit-learn and CatBoost. They are parameters of the model:
  \<open>grid_search name X y\<close> is \<^verbatim>\<open>search.best_estimator_\<close> after
  \<^verbatim>\<open>GridSearchCV(...).fit(X, y)\<close> for the family \<open>name\<close>; \<open>predict_row m x\<close> is
  the value a fitted tree ensemble \<open>m\<close> predicts for the row \<open>x\<close>, and
  \<^verbatim>\<open>m.predict(X)\<close> predicts every row of \<open>X\<close> on its own; \<open>refit\<close> is the
  estimator's \<^verbatim>\<open>fit\<close>; \<open>rmse y p\<close> is \<^verbatim>\<open>np.sqrt(mean_squared_error(y, p))\<close>;
  \<open>train_test_split\<close> is the seeded split, returning
  \<^verbatim>\<open>X_tr, X_val, y_tr, y_val\<close>.
\<close>

record ('x, 'm) learner =
  train_test_split :: "'x list \<Rightarrow> pyfloat list \<Rightarrow> 'x list \<times> 'x list \<times> pyfloat list \<times> pyfloat list"
  grid_search :: "family \<Rightarrow> 'x list \<Rightarrow> pyfloat list \<Rightarrow> 'm"
  predict_row :: "'m \<Rightarrow> 'x \<Rightarrow> pyfloat"
  refit :: "'m \<Rightarrow> 'x list \<Rightarrow> pyfloat list \<Rightarrow> 'm"
  rmse :: "pyfloat list \<Rightarrow> pyfloat list \<Rightarrow> pyfloat"

definition predict :: "('x, 'm) learner \<Rightarrow> 'm \<Rightarrow> 'x list \<Rightarrow> pyfloat list" where
  "predict L m X = map (predict_row L m) X"

record 'm selection =
  best_rmse :: pyfloat
  best_model :: "'m option"
  best_name :: "family option"

definition no_selection :: "'m selection" where
  "no_selection = \<lparr>best_rmse = PInf, best_model = None, best_name = None\<rparr>"

text \<open>The body of the loop once the family has been searched and scored.\<close>

definition keep_better :: "'m selection \<Rightarrow> family \<times> pyfloat \<times> 'm \<Rightarrow> 'm selection" where
  "keep_better s e =
     (case e of (name, r, m) \<Rightarrow>
        if float_lt r (best_rmse s)
        then \<lparr>best_rmse = r, best_model = Some m, best_name = Some name\<rparr>
        else s)"

definition select_best :: "(family \<times> pyfloat \<times> 'm) list \<Rightarrow> 'm selection" where
  "select_best evals = foldl keep_better no_selection evals"

definition best_estimator :: "('x, 'm) learner \<Rightarrow> 'x list \<Rightarrow> pyfloat list \<Rightarrow> family \<Rightarrow> 'm" where
  "best_estimator L X_tr y_tr name = grid_search L name X_tr y_tr"

definition holdout_rmse ::
  "('x, 'm) learner \<Rightarrow> 'x list \<Rightarrow> pyfloat list \<Rightarrow> 'x list \<Rightarrow> pyfloat list \<Rightarrow> family \<Rightarrow> pyfloat" where
  "holdout_rmse L X_tr y_tr X_val y_val name =
     rmse L y_val (predict L (best_estimator L X_tr y_tr name) X_val)"

definition compare_models ::
  "('x, 'm) learner \<Rightarrow> 'x list \<Rightarrow> pyfloat list \<Rightarrow> 'x list \<Rightarrow> pyfloat list \<Rightarrow> 'm option \<times> pyfloat" where
  "compare_models L X_tr y_tr X_val y_val =
     (let s = select_best
                (map (\<lambda>name. (name, holdout_rmse L X_tr y_tr X_val y_val name,
                                best_estimator L X_tr y_tr name)) model_defs)
      in (best_model s, best_rmse s))"

text \<open>The position of a family in the iteration order.\<close>

fun family_rank :: "family \<Rightarrow> nat" where
  "family_rank GradientBoosting = 0"
| "family_rank RandomForest = 1"
| "family_rank CatBoost = 2"

text \<open>
  Example learners, for runs on concrete tables. Both take the name of the family as the
  fitted estimator. The first predicts 0 for every row, and its hold-out error on one
  validation row is computed as numpy does, \<^verbatim>\<open>sqrt(((y - p) ** 2) / 1)\<close>; on more
  rows it is left at NaN.
\<close>

definition single_row_rmse :: "pyfloat list \<Rightarrow> pyfloat list \<Rightarrow> pyfloat" where
  "single_row_rmse y p =
     (case (y, p) of
        ([a], [b]) \<Rightarrow> fsqrt (fdiv (fmul (fsub a b) (fsub a b)) (Fin 1))
      | _ \<Rightarrow> NaN)"

definition overflowing_learner :: "('x, family) learner" where
  "overflowing_learner =
     \<lparr>train_test_split = (\<lambda>X y. (X, X, y, y)),
      grid_search = (\<lambda>name X y. name), predict_row = (\<lambda>m x. Fin 0),
      refit = (\<lambda>m X y. m), rmse = single_row_rmse\<rparr>"

text \<open>
  In the second, the hold-out error of a family is the value it predicts: 5 for the first
  two families, a tie, and 9 for the third.
\<close>

definition tied_learner :: "('x, family) learner" where
  "tied_learner =
     \<lparr>train_test_split = (\<lambda>X y. (X, X, y, y)),
      grid_search = (\<lambda>name X y. name),
      predict_row = (\<lambda>m x. if m = CatBoost then Fin 9 else Fin 5),
      refit = (\<lambda>m X y. m),
      rmse = (\<lambda>y p. case p of [] \<Rightarrow> NaN | v # vs \<Rightarrow> v)\<rparr>"

text \<open>
  Five training rows with their targets, one validation row, and a validation target of
  \<open>2\<^sup>5\<^sup>2\<^sup>0\<close>, about \<open>3.4 \<times> 10\<^sup>1\<^sup>5\<^sup>6\<close>, whose square is beyond the largest double.
\<close>

definition huge_target :: real where
  "huge_target = 2 ^ 520"


definition example_X_tr :: "unit list" where
  "example_X_tr = [(), (), (), (), ()]"

definition example_y_tr :: "pyfloat list" where
  "example_y_tr = [Fin 1000, Fin 2000, Fin 3000, Fin 4000, Fin 5000]"

definition example_X_val :: "unit list" where
  "example_X_val = [()]"

section \<open>The pipeline driver\<close>




section \<open>Auxiliary notions and example data\<close>

text \<open>
  The definitions of this section are not part of the program. \<open>encode_row\<close>,
  \<open>column_classes\<close> and \<open>encode_cats\<close> name what the encoding loop computes, so that
  its result can be stated; the examples are concrete inputs on which the results
  below are run. \<open>example_parse\<close> stands for the timestamp parser on the strings used.
\<close>


definition example_parse :: "string \<Rightarrow> parse_result" where
  "example_parse s =
     (if s = ''2020-03-01 00:00:00''
        then Stamp \<lparr>epoch_ns = 1583020800000000000, dt_month = 3, dt_hour = 0\<rparr>
      else if s = ''2020-03-01 07:00:00''
        then Stamp \<lparr>epoch_ns = 1583046000000000000, dt_month = 3, dt_hour = 7\<rparr>
      else if s = ''2020-03-04 12:00:00''
        then Stamp \<lparr>epoch_ns = 1583323200000000000, dt_month = 3, dt_hour = 12\<rparr>
      else if s = [] then NaT
      else Unparsable)"

text \<open>Checks that never raise, for columns in one format and one timezone.\<close>

definition no_column_errors :: column_checks where
  "no_column_errors = \<lparr>format_error = (\<lambda>cs. None), subtract_error = (\<lambda>r a. None)\<rparr>"

definition example_claim :: "string \<Rightarrow> string \<Rightarrow> real \<Rightarrow> real \<Rightarrow> 'x \<Rightarrow> 'x claim_record" where
  "example_claim accident reported wages hours other =
     \<lparr>claim_record.DateTimeOfAccident = Some accident,
      claim_record.DateReported = Some reported,
      claim_record.WeeklyWages = Fin wages,
      claim_record.HoursWorkedPerWeek = Fin hours,
      claim_record.DaysWorkedPerWeek = Fin 5,
      claim_record.DependentChildren = Fin 0,
      claim_record.DependentsOther = Fin 0,
      claim_record.Age = Fin 30,
      claim_record.Gender = Text ''M'',
      claim_record.MaritalStatus = Text ''S'',
      claim_record.PartTimeFullTime = Text ''F'',
      claim_record.other_columns = other\<rparr>"

text \<open>
  Writing the codes of a column back, row by row; the classes fitted on a column; and all
  columns of a list encoded in turn.
\<close>

definition encode_row :: "cat_column \<Rightarrow> string list \<Rightarrow> feature_row \<Rightarrow> feature_row" where
  "encode_row col classes r = snd col (\<lambda>_. Code (label_index classes (astype_str (fst col r)))) r"

definition column_classes :: "cat_column \<Rightarrow> feature_row list \<Rightarrow> string list" where
  "column_classes col X = le_fit (map astype_str (get_column col X))"

definition encode_cats :: "cat_column list \<Rightarrow> feature_row list \<Rightarrow> feature_row \<Rightarrow> feature_row" where
  "encode_cats cols X r = fold (\<lambda>col. encode_row col (column_classes col X)) cols r"

definition example_features :: "category \<Rightarrow> category \<Rightarrow> category \<Rightarrow> pyfloat \<Rightarrow> feature_row" where
  "example_features gender marital part wage =
     \<lparr>Age = Fin 30, AccidentMonth = Fin 3, AccidentHour = Fin 7, ReportDelayDays = Fin 3,
      WeeklyWages = Fin 600, HoursWorkedPerWeek = Fin 40, DaysWorkedPerWeek = Fin 5,
      WagePerHour = wage, DependentsTotal = NaN,
      Gender = gender, MaritalStatus = marital, PartTimeFullTime = part\<rparr>"

text \<open>
  The invariant of the loop after the evaluations \<open>es\<close>: either nothing was below the
  initial infinity and the selection is still the initial one, or the selection is the
  entry at some position \<open>i\<close>, no entry is strictly below it, and no earlier entry
  equals it.
\<close>

definition selected_at :: "(family \<times> pyfloat \<times> 'm) list \<Rightarrow> 'm selection \<Rightarrow> nat \<Rightarrow> bool" where
  "selected_at es s i \<longleftrightarrow>
     i < length es \<and>
     s = \<lparr>best_rmse = fst (snd (es ! i)), best_model = Some (snd (snd (es ! i))),
          best_name = Some (fst (es ! i))\<rparr> \<and>
     float_lt (fst (snd (es ! i))) PInf \<and>
     (\<forall>j < length es. \<not> float_lt (fst (snd (es ! j))) (fst (snd (es ! i)))) \<and>
     (\<forall>j < i. fst (snd (es ! j)) \<noteq> fst (snd (es ! i)))"

definition nothing_selected :: "(family \<times> pyfloat \<times> 'm) list \<Rightarrow> 'm selection \<Rightarrow> bool" where
  "nothing_selected es s \<longleftrightarrow>
     s = no_selection \<and> (\<forall>j < length es. \<not> float_lt (fst (snd (es ! j))) PInf)"

section \<open>Rounding\<close>

text \<open>The exponent found by \<open>binade\<close> brackets the magnitude between two powers of two.\<close>

lemma pow2_nat: "pow2 (int n) = 2 ^ n"
  by (simp add: pow2_def)

lemma pow2_neg_nat: "pow2 (- int n) = 1 / 2 ^ n"
  by (cases n) (simp_all add: pow2_def nat_add_distrib)

lemma binade_bounds:
  assumes "x \<noteq> 0"
  shows "pow2 (binade x) \<le> \<bar>x\<bar>" and "\<bar>x\<bar> < pow2 (binade x + 1)"
proof -
  let ?a = "\<bar>x\<bar>"
  have a: "0 < ?a" using assms by simp
  have "pow2 (binade x) \<le> ?a \<and> ?a < pow2 (binade x + 1)"
  proof (cases "1 \<le> ?a")
    case True
    define n where "n = nat \<lfloor>?a\<rfloor>"
    define k where "k = floorlog 2 n"
    have n: "0 < n" "real n \<le> ?a" "?a < real n + 1"
      using True by (auto simp: n_def)
    have fb: "2 ^ (k - 1) \<le> n" "n < 2 ^ k"
      using floorlog_bounds [of n 2] n(1) by (simp_all add: k_def)
    have k: "0 < k"
      using n(1) by (simp add: k_def floorlog_def)
    have b: "binade x = int k - 1"
      using True by (simp add: binade_def n_def k_def)
    have p1: "pow2 (binade x) = 2 ^ (k - 1)"
      using k pow2_nat [of "k - 1"] by (simp add: b of_nat_diff)
    have p2: "pow2 (binade x + 1) = 2 ^ k"
      using pow2_nat [of k] by (simp add: b)
    have r1: "(2::real) ^ (k - 1) \<le> real n"
    proof -
      have "real (2 ^ (k - 1)) \<le> real n" using fb(1) by (rule of_nat_mono)
      then show ?thesis by simp
    qed
    have r2: "real n + 1 \<le> 2 ^ k"
    proof -
      have "n + 1 \<le> 2 ^ k" using fb(2) by simp
      then have "real (n + 1) \<le> real (2 ^ k)" by (rule of_nat_mono)
      then show ?thesis by simp
    qed
    show ?thesis
      unfolding p1 p2 using r1 r2 n(2,3) by linarith
  next
    case False
    define y where "y = 1 / ?a"
    define n where "n = nat \<lceil>y\<rceil>"
    define k where "k = floorlog 2 (n - 1)"
    have y: "1 < y" using False a by (simp add: y_def)
    have n: "2 \<le> n" "y \<le> real n" "real n - 1 < y"
    proof -
      have c: "2 \<le> \<lceil>y\<rceil>"
      proof -
        have "1 < \<lceil>y\<rceil>" using y by (simp add: less_ceiling_iff)
        then show ?thesis by linarith
      qed
      then show "2 \<le> n" unfolding n_def by linarith
      have r: "real n = of_int \<lceil>y\<rceil>"
        using c by (simp add: n_def)
      show "y \<le> real n" unfolding r by (rule le_of_int_ceiling)
      show "real n - 1 < y" unfolding r using ceiling_correct [of y] by linarith
    qed
    have fb: "2 ^ (k - 1) \<le> n - 1" "n - 1 < 2 ^ k"
      using floorlog_bounds [of "n - 1" 2] n(1) by (simp_all add: k_def)
    have k: "0 < k"
      using n(1) by (simp add: k_def floorlog_def)
    have b: "binade x = - int k"
      using False by (simp add: binade_def n_def k_def y_def)
    have up: "real n \<le> 2 ^ k"
    proof -
      have "n \<le> 2 ^ k" using fb(2) n(1) by simp
      then have "real n \<le> real (2 ^ k)" by (rule of_nat_mono)
      then show ?thesis by simp
    qed
    have lo: "(2::real) ^ (k - 1) \<le> real n - 1"
    proof -
      have "real (2 ^ (k - 1)) \<le> real (n - 1)" using fb(1) by (rule of_nat_mono)
      then show ?thesis using n(1) by (simp add: of_nat_diff)
    qed
    have 1: "pow2 (- int k) \<le> ?a"
    proof -
      have "y \<le> 2 ^ k" using n(2) up by linarith
      then have "1 / ?a \<le> 2 ^ k" by (simp add: y_def)
      then have "1 \<le> 2 ^ k * ?a" using a by (simp add: field_simps)
      then show ?thesis by (simp add: pow2_neg_nat field_simps)
    qed
    have 2: "?a < pow2 (- int k + 1)"
    proof -
      have "2 ^ (k - 1) < y" using lo n(3) by linarith
      then have "2 ^ (k - 1) < 1 / ?a" by (simp add: y_def)
      then have "2 ^ (k - 1) * ?a < 1" using a by (simp add: field_simps)
      then have "?a < 1 / 2 ^ (k - 1)"
        by (simp add: pos_less_divide_eq mult.commute)
      moreover have "pow2 (- int k + 1) = 1 / 2 ^ (k - 1)"
        using k pow2_neg_nat [of "k - 1"] by (simp add: of_nat_diff)
      ultimately show ?thesis by simp
    qed
    show ?thesis using 1 2 b by simp
  qed
  then show "pow2 (binade x) \<le> \<bar>x\<bar>" and "\<bar>x\<bar> < pow2 (binade x + 1)"
    by simp_all
qed

text \<open>Small integers and zero are doubles, and a quotient beyond the largest double is not.\<close>

lemma round64_examples:
  "round64 0 = Fin 0" "round64 15 = Fin 15" "round64 huge_target = Fin huge_target"
  "round64 (huge_target * huge_target) = PInf"
  by (simp_all add: round64_def binade_def pow2_def round_half_even_def compute_floorlog Let_def
      huge_target_def)

section \<open>Model selection\<close>

subsection \<open>The float order\<close>

lemma float_lt_irrefl: "\<not> float_lt a a"
  by (cases a) simp_all

lemma float_lt_trans: "float_lt a b \<Longrightarrow> float_lt b c \<Longrightarrow> float_lt a c"
  by (cases a; cases b; cases c) simp_all

lemma float_lt_neq: "float_lt a b \<Longrightarrow> a \<noteq> b"
  using float_lt_irrefl by blast

subsection \<open>The selection loop\<close>

lemma select_best_snoc: "select_best (es @ [e]) = keep_better (select_best es) e"
  by (simp add: select_best_def)

lemma keep_better_nothing:
  assumes "nothing_selected es s"
  shows "nothing_selected (es @ [e]) (keep_better s e) \<or>
         selected_at (es @ [e]) (keep_better s e) (length es)"
proof (cases "float_lt (fst (snd e)) PInf")
  case True
  have old: "\<forall>j < length es. \<not> float_lt (fst (snd (es ! j))) PInf" and s: "s = no_selection"
    using assms by (simp_all add: nothing_selected_def)
  have low: "\<not> float_lt (fst (snd ((es @ [e]) ! j))) (fst (snd e))" if "j < length (es @ [e])" for j
  proof (cases "j < length es")
    case True
    then show ?thesis
      using old float_lt_trans [OF _ \<open>float_lt (fst (snd e)) PInf\<close>] by (auto simp: nth_append)
  next
    case False
    with that have "j = length es" by simp
    then show ?thesis by (simp add: float_lt_irrefl)
  qed
  have early: "fst (snd ((es @ [e]) ! j)) \<noteq> fst (snd e)" if "j < length es" for j
    using that old True by (auto simp: nth_append)
  have "selected_at (es @ [e]) (keep_better s e) (length es)"
    unfolding selected_at_def using True s low early
    by (auto simp: keep_better_def no_selection_def split: prod.splits)
  then show ?thesis ..
next
  case False
  then have "nothing_selected (es @ [e]) (keep_better s e)"
    using assms
    by (auto simp: nothing_selected_def keep_better_def no_selection_def nth_append
        less_Suc_eq split: prod.splits)
  then show ?thesis ..
qed

lemma keep_better_selected:
  assumes "selected_at es s i"
  shows "selected_at (es @ [e]) (keep_better s e) i \<or>
         selected_at (es @ [e]) (keep_better s e) (length es)"
proof (cases "float_lt (fst (snd e)) (best_rmse s)")
  case True
  have i: "i < length es" and b: "best_rmse s = fst (snd (es ! i))"
    and fin: "float_lt (fst (snd (es ! i))) PInf"
    and old: "\<forall>j < length es. \<not> float_lt (fst (snd (es ! j))) (fst (snd (es ! i)))"
    using assms by (auto simp: selected_at_def)
  have below: "float_lt (fst (snd e)) (fst (snd (es ! i)))"
    using True b by simp
  have low: "\<not> float_lt (fst (snd ((es @ [e]) ! j))) (fst (snd e))" if "j < length (es @ [e])" for j
  proof (cases "j < length es")
    case True
    then show ?thesis
      using old float_lt_trans [OF _ below] by (auto simp: nth_append)
  next
    case False
    with that have "j = length es" by simp
    then show ?thesis by (simp add: float_lt_irrefl)
  qed
  have early: "fst (snd ((es @ [e]) ! j)) \<noteq> fst (snd e)" if "j < length es" for j
    using that old below by (auto simp: nth_append)
  have "selected_at (es @ [e]) (keep_better s e) (length es)"
    unfolding selected_at_def using True low early float_lt_trans [OF below fin]
    by (auto simp: keep_better_def split: prod.splits)
  then show ?thesis ..
next
  case False
  then have "keep_better s e = s"
    by (auto simp: keep_better_def split: prod.splits)
  moreover have "selected_at (es @ [e]) s i"
    using assms False
    by (auto simp: selected_at_def nth_append less_Suc_eq)
  ultimately show ?thesis by simp
qed

lemma select_best_invariant:
  "nothing_selected es (select_best es) \<or> (\<exists>i. selected_at es (select_best es) i)"
proof (induction es rule: rev_induct)
  case Nil
  then show ?case by (simp add: nothing_selected_def select_best_def)
next
  case (snoc e es)
  then show ?case
    using keep_better_nothing [of es "select_best es" e]
      keep_better_selected [of es "select_best es" _ e]
    by (auto simp: select_best_snoc)
qed

subsection \<open>The result of \<open>compare_models\<close>\<close>

lemma family_nth: "model_defs ! family_rank f = f" "family_rank f < 3"
  by (cases f; simp add: model_defs_def)+

lemma rank_nth: "i < 3 \<Longrightarrow> family_rank (model_defs ! i) = i"
  by (auto simp: model_defs_def less_Suc_eq numeral_3_eq_3)

text \<open>
  C1 (amended). If at least one family has a hold-out RMSE strictly below the initial
  running best \<^verbatim>\<open>float('inf')\<close>, \<open>compare_models\<close> returns the best estimator of a
  family together with that family's hold-out RMSE, where that RMSE is below
  \<^verbatim>\<open>float('inf')\<close>, no family has a strictly lower one, and no family earlier in the
  iteration order (GradientBoosting, RandomForest, CatBoost) has an equal one: the lowest
  RMSE wins and a tie is kept by the family evaluated first. If no family has a hold-out
  RMSE below \<^verbatim>\<open>float('inf')\<close>, \<open>compare_models\<close> returns \<^verbatim>\<open>None\<close> and
  \<^verbatim>\<open>float('inf')\<close>.
\<close>

theorem compare_models_selects_first_lowest:
  "((\<exists>name. float_lt (holdout_rmse L X_tr y_tr X_val y_val name) PInf) \<longrightarrow>
      (\<exists>name.
         compare_models L X_tr y_tr X_val y_val =
           (Some (best_estimator L X_tr y_tr name), holdout_rmse L X_tr y_tr X_val y_val name) \<and>
         float_lt (holdout_rmse L X_tr y_tr X_val y_val name) PInf \<and>
         (\<forall>other. \<not> float_lt (holdout_rmse L X_tr y_tr X_val y_val other)
                              (holdout_rmse L X_tr y_tr X_val y_val name)) \<and>
         (\<forall>other. family_rank other < family_rank name \<longrightarrow>
              holdout_rmse L X_tr y_tr X_val y_val other \<noteq>
              holdout_rmse L X_tr y_tr X_val y_val name))) \<and>
   ((\<forall>name. \<not> float_lt (holdout_rmse L X_tr y_tr X_val y_val name) PInf) \<longrightarrow>
      compare_models L X_tr y_tr X_val y_val = (None, PInf))"
proof -
  define r where "r = holdout_rmse L X_tr y_tr X_val y_val"
  define es where "es = map (\<lambda>name. (name, r name, best_estimator L X_tr y_tr name)) model_defs"
  have len: "length es = 3"
    by (simp add: es_def model_defs_def)
  have nth: "es ! i = (model_defs ! i, r (model_defs ! i), best_estimator L X_tr y_tr (model_defs ! i))"
    if "i < 3" for i
  proof -
    have "i < length model_defs" using that by (simp add: model_defs_def)
    then show ?thesis by (simp add: es_def)
  qed
  have res: "compare_models L X_tr y_tr X_val y_val = (best_model (select_best es), best_rmse (select_best es))"
    by (simp add: compare_models_def es_def r_def Let_def)
  have some: "\<exists>name.
         compare_models L X_tr y_tr X_val y_val = (Some (best_estimator L X_tr y_tr name), r name) \<and>
         float_lt (r name) PInf \<and>
         (\<forall>other. \<not> float_lt (r other) (r name)) \<and>
         (\<forall>other. family_rank other < family_rank name \<longrightarrow> r other \<noteq> r name)"
    if "\<exists>name. float_lt (r name) PInf"
  proof -
    from that obtain g where g: "float_lt (r g) PInf" ..
    have "\<not> nothing_selected es (select_best es)"
      using g nth [OF family_nth(2) [of g]] family_nth [of g] len
      by (auto simp: nothing_selected_def)
    then obtain i where sel: "selected_at es (select_best es) i"
      using select_best_invariant [of es] by blast
    then have i: "i < 3"
      by (simp add: selected_at_def len)
    let ?n = "model_defs ! i"
    have 1: "compare_models L X_tr y_tr X_val y_val = (Some (best_estimator L X_tr y_tr ?n), r ?n)"
      using sel nth [OF i] by (simp add: res selected_at_def)
    have 2: "float_lt (r ?n) PInf"
      using sel nth [OF i] by (simp add: selected_at_def)
    have 3: "\<not> float_lt (r other) (r ?n)" for other
      using sel nth [OF i] nth [OF family_nth(2) [of other]] family_nth [of other] len
      by (auto simp: selected_at_def)
    have 4: "r other \<noteq> r ?n" if "family_rank other < family_rank ?n" for other
    proof -
      have "family_rank other < i" using that rank_nth [OF i] by simp
      then show ?thesis
        using sel nth [OF i] nth [OF family_nth(2) [of other]] family_nth(1) [of other]
        by (auto simp: selected_at_def)
    qed
    show ?thesis
      using 1 2 3 4 by blast
  qed
  have none: "compare_models L X_tr y_tr X_val y_val = (None, PInf)"
    if no: "\<forall>name. \<not> float_lt (r name) PInf"
  proof -
    have "\<not> selected_at es (select_best es) i" for i
    proof
      assume sel: "selected_at es (select_best es) i"
      then have i: "i < 3" by (simp add: selected_at_def len)
      from sel nth [OF i] have "float_lt (r (model_defs ! i)) PInf"
        by (simp add: selected_at_def)
      with no show False by blast
    qed
    then have "nothing_selected es (select_best es)"
      using select_best_invariant [of es] by blast
    then show ?thesis
      by (simp add: res nothing_selected_def no_selection_def)
  qed
  show ?thesis
    using some none unfolding r_def by blast
qed

text \<open>
  With 5, 5 and 9 as the three hold-out errors, the tie goes to GradientBoosting; with
  three infinite hold-out errors nothing is returned.
\<close>

lemma tied_rmse:
  "holdout_rmse tied_learner example_X_tr example_y_tr example_X_val [Fin 0] name =
     (if name = CatBoost then Fin 9 else Fin 5)"
  by (simp add: holdout_rmse_def best_estimator_def tied_learner_def predict_def example_X_val_def)

lemma overflowing_rmse:
  "holdout_rmse overflowing_learner example_X_tr example_y_tr example_X_val [Fin huge_target] name = PInf"
  by (simp add: holdout_rmse_def best_estimator_def overflowing_learner_def predict_def
      example_X_val_def single_row_rmse_def fsub_def round64_examples)

theorem compare_models_tie_witness:
  "compare_models tied_learner example_X_tr example_y_tr example_X_val [Fin 0] =
     (Some GradientBoosting, Fin 5) \<and>
   compare_models overflowing_learner example_X_tr example_y_tr example_X_val [Fin huge_target] =
     (None, PInf)"
proof -
  have b: "best_estimator tied_learner example_X_tr example_y_tr name = name" for name
    by (simp add: best_estimator_def tied_learner_def)
  note t = compare_models_selects_first_lowest
    [of tied_learner example_X_tr example_y_tr example_X_val "[Fin 0]"]
  have "\<exists>name. float_lt (holdout_rmse tied_learner example_X_tr example_y_tr example_X_val [Fin 0] name) PInf"
    by (rule exI [of _ GradientBoosting]) (simp add: tied_rmse)
  from t [THEN conjunct1, THEN mp, OF this]
  obtain name where
    n: "compare_models tied_learner example_X_tr example_y_tr example_X_val [Fin 0] =
          (Some name, if name = CatBoost then Fin 9 else Fin 5)"
    and low: "\<forall>other. \<not> float_lt (if other = CatBoost then Fin 9 else Fin 5)
                                (if name = CatBoost then Fin 9 else Fin 5)"
    and first: "\<forall>other. family_rank other < family_rank name \<longrightarrow>
                (if other = CatBoost then Fin 9 else Fin 5) \<noteq>
                (if name = CatBoost then Fin 9 else (Fin 5 :: pyfloat))"
    unfolding b tied_rmse by blast
  have "name = GradientBoosting"
  proof (cases name)
    case GradientBoosting then show ?thesis .
  next
    case RandomForest
    with first [rule_format, of GradientBoosting] show ?thesis by simp
  next
    case CatBoost
    with low [rule_format, of GradientBoosting] show ?thesis by simp
  qed
  with n have 1: "compare_models tied_learner example_X_tr example_y_tr example_X_val [Fin 0] =
     (Some GradientBoosting, Fin 5)"
    by simp
  note u = compare_models_selects_first_lowest
    [of overflowing_learner example_X_tr example_y_tr example_X_val "[Fin huge_target]"]
  have "\<forall>name. \<not> float_lt (holdout_rmse overflowing_learner example_X_tr example_y_tr
                           example_X_val [Fin huge_target] name) PInf"
    by (simp add: overflowing_rmse)
  from u [THEN conjunct2, THEN mp, OF this] 1 show ?thesis
    by (intro conjI)
qed

text \<open>
  C1 as stated fails when every hold-out RMSE is infinite. Here the validation target is
  \<open>2\<^sup>5\<^sup>2\<^sup>0\<close> and every family predicts 0: the squared error
  overflows, \<^verbatim>\<open>np.sqrt(mean_squared_error(y_val, y_pred))\<close> is \<^verbatim>\<open>inf\<close> for each
  family, no comparison against the initial infinity succeeds, and the function returns
  \<^verbatim>\<open>None\<close>, not the estimator of any family.
\<close>

theorem compare_models_all_infinite:
  "holdout_rmse overflowing_learner example_X_tr example_y_tr example_X_val [Fin huge_target]
     GradientBoosting = PInf \<and>
   holdout_rmse overflowing_learner example_X_tr example_y_tr example_X_val [Fin huge_target]
     RandomForest = PInf \<and>
   holdout_rmse overflowing_learner example_X_tr example_y_tr example_X_val [Fin huge_target]
     CatBoost = PInf \<and>
   compare_models overflowing_learner example_X_tr example_y_tr example_X_val [Fin huge_target] =
     (None, PInf)"
  by (simp add: overflowing_rmse compare_models_def select_best_def model_defs_def keep_better_def
      no_selection_def)

section \<open>Feature engineering: results\<close>

subsection \<open>Parsing a column of timestamps\<close>

lemma parse_cells_Inr:
  "parse_cells parse cs = Inr ds \<Longrightarrow>
   length ds = length cs \<and> (\<forall>i < length cs. parse_cell parse (cs ! i) = Inr (ds ! i))"
proof (induction cs arbitrary: ds)
  case Nil
  then show ?case by simp
next
  case (Cons c cs)
  then obtain d ds' where c: "parse_cell parse c = Inr d" and cs: "parse_cells parse cs = Inr ds'"
    and ds: "ds = d # ds'"
    by (auto split: sum.splits)
  show ?case
    using Cons.IH [OF cs] c ds by (auto simp: nth_Cons split: nat.splits)
qed

lemma parse_cells_Inl:
  "c \<in> set cs \<Longrightarrow> parse_cell parse c = Inl e \<Longrightarrow> \<exists>e'. parse_cells parse cs = Inl e'"
  by (induction cs) (auto split: sum.splits)

lemma parse_cells_total:
  "(\<forall>c \<in> set cs. \<exists>d. parse_cell parse c = Inr d) \<Longrightarrow> \<exists>ds. parse_cells parse cs = Inr ds"
  by (induction cs) (auto split: sum.splits)

lemma to_datetime_Inr:
  "to_datetime parse checks cs = Inr ds \<Longrightarrow>
   length ds = length cs \<and> (\<forall>i < length cs. parse_cell parse (cs ! i) = Inr (ds ! i))"
proof -
  assume "to_datetime parse checks cs = Inr ds"
  then have "parse_cells parse cs = Inr ds"
    by (auto simp: to_datetime_def split: sum.splits option.splits)
  then show ?thesis by (rule parse_cells_Inr)
qed

lemma to_datetime_Inl:
  "c \<in> set cs \<Longrightarrow> parse_cell parse c = Inl e \<Longrightarrow> \<exists>e'. to_datetime parse checks cs = Inl e'"
proof -
  assume "c \<in> set cs" "parse_cell parse c = Inl e"
  then obtain e' where "parse_cells parse cs = Inl e'"
    using parse_cells_Inl by blast
  then show ?thesis by (simp add: to_datetime_def)
qed

lemma to_datetime_total:
  "(\<forall>c \<in> set cs. \<exists>d. parse_cell parse c = Inr d) \<Longrightarrow> format_error checks cs = None \<Longrightarrow>
   \<exists>ds. to_datetime parse checks cs = Inr ds"
proof -
  assume "\<forall>c \<in> set cs. \<exists>d. parse_cell parse c = Inr d" and f: "format_error checks cs = None"
  then obtain ds where "parse_cells parse cs = Inr ds"
    using parse_cells_total by blast
  then show ?thesis using f by (simp add: to_datetime_def)
qed

lemma parse_cell_Inl_iff:
  "(\<exists>e. parse_cell parse c = Inl e) \<longleftrightarrow> (\<exists>s. c = Some s \<and> parse s = Unparsable)"
  by (auto simp: parse_cell_def split: option.splits parse_result.splits)

lemma parse_cell_Stamp:
  "c = Some s \<Longrightarrow> parse s = Stamp d \<Longrightarrow> parse_cell parse c = Inr (Some d)"
  by (simp add: parse_cell_def)

subsection \<open>The rows of the engineered table\<close>

lemma clean_and_engineer_rows:
  assumes "clean_and_engineer parse checks df = Inr out"
  shows "length out = length df"
    and "i < length df \<Longrightarrow>
         \<exists>a d. parse_cell parse (claim_record.DateTimeOfAccident (df ! i)) = Inr a \<and>
               parse_cell parse (claim_record.DateReported (df ! i)) = Inr d \<and>
               out ! i = engineer_row (df ! i) a d"
proof -
  from assms obtain acc rep where
    acc: "to_datetime parse checks (map claim_record.DateTimeOfAccident df) = Inr acc" and
    rep: "to_datetime parse checks (map claim_record.DateReported df) = Inr rep" and
    out: "out = map (\<lambda>(r, a, d). engineer_row r a d) (zip df (zip acc rep))"
    by (auto simp: clean_and_engineer_def split: sum.splits option.splits)
  have la: "length acc = length df" and lr: "length rep = length df"
    using to_datetime_Inr [OF acc] to_datetime_Inr [OF rep] by simp_all
  show "length out = length df"
    by (simp add: out la lr)
  show "\<exists>a d. parse_cell parse (claim_record.DateTimeOfAccident (df ! i)) = Inr a \<and>
               parse_cell parse (claim_record.DateReported (df ! i)) = Inr d \<and>
               out ! i = engineer_row (df ! i) a d" if "i < length df"
    using that to_datetime_Inr [OF acc] to_datetime_Inr [OF rep] la lr
    by (simp add: out)
qed

text \<open>With checks that never raise, a table whose timestamp cells parse is returned.\<close>

lemma clean_and_engineer_total:
  assumes "\<forall>r \<in> set df. (\<exists>a. parse_cell parse (claim_record.DateTimeOfAccident r) = Inr a) \<and>
                         (\<exists>d. parse_cell parse (claim_record.DateReported r) = Inr d)"
  shows "\<exists>out. clean_and_engineer parse no_column_errors df = Inr out"
proof -
  have f: "format_error no_column_errors cs = None" for cs
    by (simp add: no_column_errors_def)
  obtain acc where
    "to_datetime parse no_column_errors (map claim_record.DateTimeOfAccident df) = Inr acc"
    using to_datetime_total [of "map claim_record.DateTimeOfAccident df" parse, OF _ f] assms by auto
  moreover obtain rep where
    "to_datetime parse no_column_errors (map claim_record.DateReported df) = Inr rep"
    using to_datetime_total [of "map claim_record.DateReported df" parse, OF _ f] assms by auto
  ultimately show ?thesis
    by (simp add: clean_and_engineer_def no_column_errors_def)
qed

subsection \<open>Wage per hour\<close>

lemma fdiv_nonzero:
  "h \<noteq> Fin 0 \<Longrightarrow> fdiv w (replace_zero_nan h) = fdiv w h"
  by (simp add: replace_zero_nan_def)

lemma fdiv_NaN_right: "fdiv w NaN = NaN"
  by (cases w) simp_all

lemma two_rows: "length xs = 2 \<Longrightarrow> map f xs = [f (xs ! 0), f (xs ! 1)]"
  by (cases xs; cases "tl xs") auto

lemma three_rows: "length xs = 3 \<Longrightarrow> map f xs = [f (xs ! 0), f (xs ! 1), f (xs ! 2)]"
  by (cases xs; cases "tl xs"; cases "tl (tl xs)") auto

lemma example_parse_cell:
  "parse_cell example_parse (Some ''2020-03-01 00:00:00'') =
     Inr (Some \<lparr>epoch_ns = 1583020800000000000, dt_month = 3, dt_hour = 0\<rparr>)"
  "parse_cell example_parse (Some ''2020-03-01 07:00:00'') =
     Inr (Some \<lparr>epoch_ns = 1583046000000000000, dt_month = 3, dt_hour = 7\<rparr>)"
  "parse_cell example_parse (Some ''2020-03-04 12:00:00'') =
     Inr (Some \<lparr>epoch_ns = 1583323200000000000, dt_month = 3, dt_hour = 12\<rparr>)"
  "parse_cell example_parse (Some ''last Tuesday'') = Inl (ParserError ''last Tuesday'')"
  by (simp_all add: parse_cell_def example_parse_def)

text \<open>Whether the call returns is decided by the two timestamp columns alone.\<close>

lemma clean_and_engineer_returns_by_timestamps:
  assumes "clean_and_engineer parse checks df = Inr out"
    and "map claim_record.DateTimeOfAccident df' = map claim_record.DateTimeOfAccident df"
    and "map claim_record.DateReported df' = map claim_record.DateReported df"
  shows "\<exists>out'. clean_and_engineer parse checks df' = Inr out'"
  using assms by (auto simp: clean_and_engineer_def split: sum.splits option.splits)

text \<open>
  C2. Whenever \<open>clean_and_engineer\<close> returns a table, it has one row per input row, and
  for every row: if \<open>HoursWorkedPerWeek\<close> is strictly greater than zero, \<open>WagePerHour\<close>
  is the float quotient of \<open>WeeklyWages\<close> by \<open>HoursWorkedPerWeek\<close>, which for finite
  \<open>w\<close> and \<open>h\<close> is \<open>w / h\<close> rounded to a double; if \<open>HoursWorkedPerWeek\<close> is exactly
  zero, \<open>WagePerHour\<close> is the missing value NaN, not an infinity. The division is never
  the reason for an error: a table with the same timestamp columns and any wages and
  hours, zero hours included, is returned as well.
\<close>

theorem wage_per_hour:
  assumes "clean_and_engineer parse checks df = Inr out"
  shows "length out = length df \<and>
         (\<forall>i < length df.
            (float_lt (Fin 0) (claim_record.HoursWorkedPerWeek (df ! i)) \<longrightarrow>
               engineered_record.WagePerHour (out ! i) =
                 fdiv (claim_record.WeeklyWages (df ! i)) (claim_record.HoursWorkedPerWeek (df ! i))) \<and>
            (\<forall>w h. claim_record.WeeklyWages (df ! i) = Fin w \<and>
                   claim_record.HoursWorkedPerWeek (df ! i) = Fin h \<and> 0 < h \<longrightarrow>
               engineered_record.WagePerHour (out ! i) = round64 (w / h)) \<and>
            (claim_record.HoursWorkedPerWeek (df ! i) = Fin 0 \<longrightarrow>
               engineered_record.WagePerHour (out ! i) = NaN)) \<and>
         (\<forall>df'. map claim_record.DateTimeOfAccident df' = map claim_record.DateTimeOfAccident df \<and>
                map claim_record.DateReported df' = map claim_record.DateReported df \<longrightarrow>
                (\<exists>out'. clean_and_engineer parse checks df' = Inr out'))"
proof -
  have wage: "engineered_record.WagePerHour (out ! i) =
      fdiv (claim_record.WeeklyWages (df ! i)) (replace_zero_nan (claim_record.HoursWorkedPerWeek (df ! i)))"
    if "i < length df" for i
    using clean_and_engineer_rows(2) [OF assms that] by (auto simp: engineer_row_def)
  have pos: "float_lt (Fin 0) h \<Longrightarrow> h \<noteq> Fin 0" for h
    using float_lt_irrefl by auto
  have rows: "(float_lt (Fin 0) (claim_record.HoursWorkedPerWeek (df ! i)) \<longrightarrow>
                 engineered_record.WagePerHour (out ! i) =
                   fdiv (claim_record.WeeklyWages (df ! i)) (claim_record.HoursWorkedPerWeek (df ! i))) \<and>
              (\<forall>w h. claim_record.WeeklyWages (df ! i) = Fin w \<and>
                     claim_record.HoursWorkedPerWeek (df ! i) = Fin h \<and> 0 < h \<longrightarrow>
                 engineered_record.WagePerHour (out ! i) = round64 (w / h)) \<and>
              (claim_record.HoursWorkedPerWeek (df ! i) = Fin 0 \<longrightarrow>
                 engineered_record.WagePerHour (out ! i) = NaN)" if "i < length df" for i
    using wage [OF that] pos [of "claim_record.HoursWorkedPerWeek (df ! i)"]
    by (auto simp: fdiv_nonzero fdiv_NaN_right replace_zero_nan_def)
  have frame: "\<exists>out'. clean_and_engineer parse checks df' = Inr out'"
    if "map claim_record.DateTimeOfAccident df' = map claim_record.DateTimeOfAccident df \<and>
        map claim_record.DateReported df' = map claim_record.DateReported df" for df'
    using clean_and_engineer_returns_by_timestamps [OF assms, of df'] that by blast
  show ?thesis
    using rows frame clean_and_engineer_rows(1) [OF assms] by blast
qed

text \<open>
  Wages of 600 over 40 hours give 15; zero hours give a missing value, for wages of 600,
  where the bare quotient would be an infinity, as for wages of 0.
\<close>

theorem wage_per_hour_witness:
  "map_sum id (map engineered_record.WagePerHour)
     (clean_and_engineer example_parse no_column_errors
        [example_claim ''2020-03-01 07:00:00'' ''2020-03-04 12:00:00'' 600 40 (),
         example_claim ''2020-03-01 07:00:00'' ''2020-03-04 12:00:00'' 600 0 (),
         example_claim ''2020-03-01 07:00:00'' ''2020-03-04 12:00:00'' 0 0 ()]) =
   Inr [Fin 15, NaN, NaN]"
proof -
  let ?df = "[example_claim ''2020-03-01 07:00:00'' ''2020-03-04 12:00:00'' 600 40 (),
              example_claim ''2020-03-01 07:00:00'' ''2020-03-04 12:00:00'' 600 0 (),
              example_claim ''2020-03-01 07:00:00'' ''2020-03-04 12:00:00'' 0 0 ()]"
  have h: "\<forall>r \<in> set ?df. (\<exists>a. parse_cell example_parse (claim_record.DateTimeOfAccident r) = Inr a) \<and>
                           (\<exists>d. parse_cell example_parse (claim_record.DateReported r) = Inr d)"
    by (simp add: example_claim_def example_parse_cell)
  obtain out where out: "clean_and_engineer example_parse no_column_errors ?df = Inr out"
    using clean_and_engineer_total [OF h] ..
  note t = wage_per_hour [OF out]
  have len: "length out = 3"
    using t [THEN conjunct1] by simp
  note rows = t [THEN conjunct2, THEN conjunct1, rule_format]
  have "engineered_record.WagePerHour (out ! 0) = round64 (600 / 40)"
    by (rule rows [of 0, THEN conjunct2, THEN conjunct1, rule_format])
       (simp_all add: example_claim_def)
  then have 0: "engineered_record.WagePerHour (out ! 0) = Fin 15"
    by (simp add: round64_examples)
  have 1: "engineered_record.WagePerHour (out ! 1) = NaN"
    by (rule rows [of 1, THEN conjunct2, THEN conjunct2, rule_format])
       (simp_all add: example_claim_def)
  have 2: "engineered_record.WagePerHour (out ! 2) = NaN"
    by (rule rows [of 2, THEN conjunct2, THEN conjunct2, rule_format])
       (simp_all add: example_claim_def)
  show ?thesis
    by (simp only: out map_sum.simps three_rows [OF len] 0 1 2)
qed

text \<open>
  Without the replacement the second row would hold an infinity. A quotient that is not a
  double is rounded, and one beyond the largest double is an infinity.
\<close>

lemma bare_quotient_is_infinite: "fdiv (Fin 600) (Fin 0) = PInf"
  by simp

lemma quotient_rounds_and_overflows:
  "fdiv (Fin 1) (Fin 3) = Fin (6004799503160661 / 2 ^ 54)"
  "fdiv (Fin (2 ^ 1023)) (Fin (1 / 4)) = PInf"
  by (simp_all add: round64_def binade_def pow2_def round_half_even_def compute_floorlog Let_def)

subsection \<open>Report delay\<close>

lemma timedelta_days_floor:
  "timedelta_days d * ns_per_day \<le> d" "d < (timedelta_days d + 1) * ns_per_day"
proof -
  have pos: "0 < ns_per_day" by (simp add: ns_per_day_def)
  have "d = timedelta_days d * ns_per_day + d mod ns_per_day"
    by (simp add: timedelta_days_def)
  moreover have "0 \<le> d mod ns_per_day" "d mod ns_per_day < ns_per_day"
    using pos by simp_all
  ultimately show "timedelta_days d * ns_per_day \<le> d" "d < (timedelta_days d + 1) * ns_per_day"
    by (simp_all add: algebra_simps)
qed

lemma timedelta_days_negative: "d < 0 \<Longrightarrow> timedelta_days d < 0"
  by (simp add: timedelta_days_def ns_per_day_def neg_imp_zdiv_neg_iff)

lemma timedelta_days_truncates: "0 \<le> d \<Longrightarrow> timedelta_days d = spec_truncated_days d"
  by (cases "d = 0") (simp_all add: timedelta_days_def spec_truncated_days_def)

text \<open>
  C3 (amended). For every row whose two timestamps parse, \<open>ReportDelayDays\<close> is the
  difference (report minus accident) in whole days rounded down: it is the integer \<open>k\<close>
  with \<open>k\<close> days \<open>\<le>\<close> difference \<open><\<close> \<open>k + 1\<close> days. It is negative, not clamped to
  zero, whenever the report precedes the accident, and when the report does not precede
  the accident it is the difference with the partial day truncated.
\<close>

theorem report_delay_days_floor:
  assumes "clean_and_engineer parse checks df = Inr out" and "i < length df"
    and "claim_record.DateTimeOfAccident (df ! i) = Some sa" and "parse sa = Stamp a"
    and "claim_record.DateReported (df ! i) = Some sr" and "parse sr = Stamp r"
  shows "\<exists>k. engineered_record.ReportDelayDays (out ! i) = Fin (of_int k) \<and>
             k * ns_per_day \<le> epoch_ns r - epoch_ns a \<and>
             epoch_ns r - epoch_ns a < (k + 1) * ns_per_day \<and>
             (epoch_ns r < epoch_ns a \<longrightarrow>
                k < 0 \<and> float_lt (engineered_record.ReportDelayDays (out ! i)) (Fin 0)) \<and>
             (epoch_ns a \<le> epoch_ns r \<longrightarrow> k = spec_truncated_days (epoch_ns r - epoch_ns a))"
proof -
  let ?d = "epoch_ns r - epoch_ns a"
  have "engineered_record.ReportDelayDays (out ! i) = Fin (of_int (timedelta_days ?d))"
    using clean_and_engineer_rows(2) [OF assms(1,2)]
      parse_cell_Stamp [of _ sa parse a, OF assms(3,4)]
      parse_cell_Stamp [of _ sr parse r, OF assms(5,6)]
    by (auto simp: engineer_row_def report_delay_days_def)
  moreover have "epoch_ns r < epoch_ns a \<Longrightarrow> timedelta_days ?d < 0"
    using timedelta_days_negative [of ?d] by simp
  moreover have "epoch_ns a \<le> epoch_ns r \<Longrightarrow> timedelta_days ?d = spec_truncated_days ?d"
    using timedelta_days_truncates [of ?d] by simp
  ultimately show ?thesis
    using timedelta_days_floor [of ?d] by (intro exI [of _ "timedelta_days ?d"]) auto
qed

text \<open>
  An accident on 1 March at 07:00 reported on 4 March at 12:00 has a delay of 3 days.
\<close>

theorem report_delay_days_witness:
  "map_sum id (map engineered_record.ReportDelayDays)
     (clean_and_engineer example_parse no_column_errors
        [example_claim ''2020-03-01 07:00:00'' ''2020-03-04 12:00:00'' 600 40 ()]) = Inr [Fin 3]"
proof -
  let ?df = "[example_claim ''2020-03-01 07:00:00'' ''2020-03-04 12:00:00'' 600 40 ()]"
  let ?a = "\<lparr>epoch_ns = 1583046000000000000, dt_month = 3, dt_hour = 7\<rparr>"
  let ?r = "\<lparr>epoch_ns = 1583323200000000000, dt_month = 3, dt_hour = 12\<rparr>"
  have h: "\<forall>r \<in> set ?df. (\<exists>a. parse_cell example_parse (claim_record.DateTimeOfAccident r) = Inr a) \<and>
                           (\<exists>d. parse_cell example_parse (claim_record.DateReported r) = Inr d)"
    by (simp add: example_claim_def example_parse_cell)
  obtain out where out: "clean_and_engineer example_parse no_column_errors ?df = Inr out"
    using clean_and_engineer_total [OF h] ..
  have len: "length out = 1"
    using clean_and_engineer_rows(1) [OF out] by simp
  have "\<exists>k. engineered_record.ReportDelayDays (out ! 0) = Fin (of_int k) \<and>
             k * ns_per_day \<le> epoch_ns ?r - epoch_ns ?a \<and>
             epoch_ns ?r - epoch_ns ?a < (k + 1) * ns_per_day \<and>
             (epoch_ns ?r < epoch_ns ?a \<longrightarrow>
                k < 0 \<and> float_lt (engineered_record.ReportDelayDays (out ! 0)) (Fin 0)) \<and>
             (epoch_ns ?a \<le> epoch_ns ?r \<longrightarrow> k = spec_truncated_days (epoch_ns ?r - epoch_ns ?a))"
    by (rule report_delay_days_floor [OF out, of 0 "''2020-03-01 07:00:00''" _ "''2020-03-04 12:00:00''"])
       (simp_all add: example_claim_def example_parse_def)
  then obtain k where d: "engineered_record.ReportDelayDays (out ! 0) = Fin (of_int k)"
    and lo: "k * ns_per_day \<le> 277200000000000" and hi: "277200000000000 < (k + 1) * ns_per_day"
    by auto
  have "k = 3"
    using lo hi by (simp add: ns_per_day_def)
  moreover have "out = [out ! 0]"
    using len by (cases out) auto
  ultimately have "map engineered_record.ReportDelayDays out = [Fin 3]"
    using d by (metis list.simps(8,9) of_int_numeral)
  then show ?thesis
    by (simp add: out)
qed

text \<open>
  C3 as stated fails for a report that precedes the accident by less than a day: an
  accident at 07:00 reported with the timestamp 00:00 of the same day has a delay of
  \<open>-1\<close>, where truncating the partial day gives \<open>0\<close>.
\<close>

theorem report_delay_same_day_is_minus_one:
  "map_sum id (map engineered_record.ReportDelayDays)
     (clean_and_engineer example_parse no_column_errors
        [example_claim ''2020-03-01 07:00:00'' ''2020-03-01 00:00:00'' 600 40 ()]) = Inr [Fin (- 1)] \<and>
   spec_truncated_days (1583020800000000000 - 1583046000000000000) = 0"
  by (simp add: clean_and_engineer_def to_datetime_def no_column_errors_def example_claim_def
      example_parse_cell engineer_row_def report_delay_days_def timedelta_days_def
      spec_truncated_days_def ns_per_day_def)

subsection \<open>Malformed timestamps\<close>

text \<open>
  C8. If some row of the table holds, in either timestamp column, a string the parser
  cannot parse, \<open>clean_and_engineer\<close> fails as a whole: the result is an error and no
  table.
\<close>

theorem malformed_timestamp_is_fatal:
  assumes "\<exists>r \<in> set df.
             (\<exists>s. claim_record.DateTimeOfAccident r = Some s \<and> parse s = Unparsable) \<or>
             (\<exists>s. claim_record.DateReported r = Some s \<and> parse s = Unparsable)"
  shows "\<exists>e. clean_and_engineer parse checks df = Inl e"
proof -
  from assms obtain r where r: "r \<in> set df"
    and bad: "(\<exists>e. parse_cell parse (claim_record.DateTimeOfAccident r) = Inl e) \<or>
              (\<exists>e. parse_cell parse (claim_record.DateReported r) = Inl e)"
    unfolding parse_cell_Inl_iff by blast
  from bad show ?thesis
  proof
    assume "\<exists>e. parse_cell parse (claim_record.DateTimeOfAccident r) = Inl e"
    then obtain e' where "to_datetime parse checks (map claim_record.DateTimeOfAccident df) = Inl e'"
      using to_datetime_Inl [of "claim_record.DateTimeOfAccident r" "map claim_record.DateTimeOfAccident df" parse _ checks] r
      by auto
    then show ?thesis
      by (simp add: clean_and_engineer_def)
  next
    assume "\<exists>e. parse_cell parse (claim_record.DateReported r) = Inl e"
    then obtain e' where "to_datetime parse checks (map claim_record.DateReported df) = Inl e'"
      using to_datetime_Inl [of "claim_record.DateReported r" "map claim_record.DateReported df" parse _ checks] r
      by auto
    then show ?thesis
      by (auto simp: clean_and_engineer_def split: sum.splits)
  qed
qed

text \<open>
  One bad report date in the second row fails the call, although the first row is fine.
\<close>

theorem malformed_timestamp_witness:
  "clean_and_engineer example_parse no_column_errors
     [example_claim ''2020-03-01 07:00:00'' ''2020-03-04 12:00:00'' 600 40 (),
      example_claim ''2020-03-01 07:00:00'' ''last Tuesday'' 600 40 ()] =
   Inl (ParserError ''last Tuesday'')"
proof -
  let ?df = "[example_claim ''2020-03-01 07:00:00'' ''2020-03-04 12:00:00'' 600 40 (),
              example_claim ''2020-03-01 07:00:00'' ''last Tuesday'' 600 40 ()]"
  have h: "\<exists>r \<in> set ?df.
             (\<exists>s. claim_record.DateTimeOfAccident r = Some s \<and> example_parse s = Unparsable) \<or>
             (\<exists>s. claim_record.DateReported r = Some s \<and> example_parse s = Unparsable)"
    by (simp add: example_claim_def example_parse_def)
  from malformed_timestamp_is_fatal [OF h] obtain e where
    e: "clean_and_engineer example_parse no_column_errors ?df = Inl e" ..
  then show ?thesis
    by (simp add: clean_and_engineer_def to_datetime_def no_column_errors_def example_claim_def
        example_parse_cell)
qed

section \<open>Encoding and imputation: results\<close>

subsection \<open>The label encoder\<close>

lemma set_le_fit: "set (le_fit vals) = set vals"
  by (simp add: le_fit_def)

lemma le_fit_set_eq: "set xs = set ys \<Longrightarrow> le_fit xs = le_fit ys"
proof -
  assume "set xs = set ys"
  moreover have "le_fit zs = sorted_list_of_set (set zs)" for zs
    by (simp add: le_fit_def sorted_list_of_set_sort_remdups)
  ultimately show ?thesis by simp
qed

lemma le_transform_Inr:
  "(\<forall>v \<in> set vals. v \<in> set classes) \<Longrightarrow>
   le_transform classes vals = Inr (map (label_index classes) vals)"
proof -
  assume "\<forall>v \<in> set vals. v \<in> set classes"
  then have "find (\<lambda>v. v \<notin> set classes) vals = None"
    by (simp add: find_None_iff)
  then show ?thesis by (simp add: le_transform_def)
qed

lemma le_transform_Inl:
  "\<exists>v \<in> set vals. v \<notin> set classes \<Longrightarrow>
   \<exists>u. u \<in> set vals \<and> u \<notin> set classes \<and> le_transform classes vals = Inl (UnseenLabel u)"
proof -
  assume "\<exists>v \<in> set vals. v \<notin> set classes"
  then obtain u where u: "find (\<lambda>v. v \<notin> set classes) vals = Some u"
    by (cases "find (\<lambda>v. v \<notin> set classes) vals") (auto simp: find_None_iff)
  then have "u \<in> set vals \<and> u \<notin> set classes"
    by (auto simp: find_Some_iff)
  with u show ?thesis by (auto simp: le_transform_def)
qed

subsection \<open>One turn of the encoding loop\<close>

lemma set_column_codes:
  "set_column col (map (label_index classes) (map astype_str (get_column col X))) X =
   map (encode_row col classes) X"
  by (induction X) (simp_all add: set_column_def get_column_def encode_row_def)

lemma set_column_classes: "set (column_classes col X) = (\<lambda>r. astype_str (fst col r)) ` set X"
  by (auto simp: column_classes_def set_le_fit get_column_def)

lemma encode_columns_seen:
  assumes "\<forall>r \<in> set X_test. astype_str (fst col r) \<in> (\<lambda>t. astype_str (fst col t)) ` set X_train"
  shows "encode_columns (col # cols) (X_train, X_test) =
         encode_columns cols (map (encode_row col (column_classes col X_train)) X_train,
                              map (encode_row col (column_classes col X_train)) X_test)"
proof -
  have "\<forall>v \<in> set (map astype_str (get_column col X_test)). v \<in> set (column_classes col X_train)"
    using assms by (auto simp: set_column_classes get_column_def)
  from le_transform_Inr [OF this] show ?thesis
    by (simp only: encode_columns.simps le_fit_transform_def Let_def prod.case sum.case
        set_column_codes flip: column_classes_def)
qed

lemma encode_columns_unseen:
  assumes "\<exists>r \<in> set X_test. astype_str (fst col r) \<notin> (\<lambda>t. astype_str (fst col t)) ` set X_train"
  shows "\<exists>u. encode_columns (col # cols) (X_train, X_test) =
           ((map (encode_row col (column_classes col X_train)) X_train, X_test), Some (UnseenLabel u))"
proof -
  have "\<exists>v \<in> set (map astype_str (get_column col X_test)). v \<notin> set (column_classes col X_train)"
    using assms by (auto simp: set_column_classes get_column_def)
  from le_transform_Inl [OF this] obtain u where
    "le_transform (column_classes col X_train) (map astype_str (get_column col X_test)) =
       Inl (UnseenLabel u)"
    by blast
  then have "encode_columns (col # cols) (X_train, X_test) =
      ((map (encode_row col (column_classes col X_train)) X_train, X_test), Some (UnseenLabel u))"
    by (simp only: encode_columns.simps le_fit_transform_def Let_def prod.case sum.case
        set_column_codes flip: column_classes_def)
  then show ?thesis ..
qed

lemma encode_columns_error:
  "\<exists>col \<in> set cols. \<exists>r \<in> set X_test.
      astype_str (fst col r) \<notin> (\<lambda>t. astype_str (fst col t)) ` set X_train \<Longrightarrow>
   (\<And>c c' r cl. c \<in> set cols \<Longrightarrow> c' \<in> set cols \<Longrightarrow> c \<noteq> c' \<Longrightarrow> fst c' (encode_row c cl r) = fst c' r) \<Longrightarrow>
   distinct cols \<Longrightarrow>
   \<exists>u. snd (encode_columns cols (X_train, X_test)) = Some (UnseenLabel u)"
proof (induction cols arbitrary: X_train X_test)
  case Nil
  then show ?case by simp
next
  case (Cons col cols)
  show ?case
  proof (cases "\<forall>r \<in> set X_test. astype_str (fst col r) \<in> (\<lambda>t. astype_str (fst col t)) ` set X_train")
    case False
    then show ?thesis
      using encode_columns_unseen [of X_test col X_train cols] by auto
  next
    case True
    let ?cl = "column_classes col X_train"
    from True Cons.prems(1) obtain c r where c: "c \<in> set cols" and r: "r \<in> set X_test"
      and new: "astype_str (fst c r) \<notin> (\<lambda>t. astype_str (fst c t)) ` set X_train"
      by auto
    have ne: "col \<noteq> c" using c Cons.prems(3) by auto
    have keep: "fst c (encode_row col ?cl t) = fst c t" for t
      using Cons.prems(2) [of col c] c ne by simp
    have "astype_str (fst c (encode_row col ?cl r)) \<notin>
            (\<lambda>t. astype_str (fst c t)) ` set (map (encode_row col ?cl) X_train)"
      using new by (auto simp: keep)
    moreover have "encode_row col ?cl r \<in> set (map (encode_row col ?cl) X_test)"
      using r by simp
    ultimately have "\<exists>c \<in> set cols. \<exists>r \<in> set (map (encode_row col ?cl) X_test).
            astype_str (fst c r) \<notin> (\<lambda>t. astype_str (fst c t)) ` set (map (encode_row col ?cl) X_train)"
      using c by blast
    moreover have "\<And>c c' r cl. c \<in> set cols \<Longrightarrow> c' \<in> set cols \<Longrightarrow> c \<noteq> c' \<Longrightarrow> fst c' (encode_row c cl r) = fst c' r"
      using Cons.prems(2) by simp
    moreover have "distinct cols" using Cons.prems(3) by simp
    ultimately show ?thesis
      using Cons.IH encode_columns_seen [OF True] by simp
  qed
qed

lemma column_classes_cong:
  "(\<And>r. fst c (f r) = fst c r) \<Longrightarrow> column_classes c (map f X) = column_classes c X"
  by (simp add: column_classes_def get_column_def comp_def)

lemma encode_columns_None:
  assumes "\<And>c c' r cl. c \<in> set cols \<Longrightarrow> c' \<in> set cols \<Longrightarrow> c \<noteq> c' \<Longrightarrow>
             fst c' (encode_row c cl r) = fst c' r"
    and "distinct cols"
    and "snd (encode_columns cols (X_train, X_test)) = None"
  shows "fst (encode_columns cols (X_train, X_test)) =
         (map (encode_cats cols X_train) X_train, map (encode_cats cols X_train) X_test)"
  using assms
proof (induction cols arbitrary: X_train X_test)
  case Nil
  then show ?case by (simp add: encode_cats_def)
next
  case (Cons col cols)
  let ?cl = "column_classes col X_train"
  let ?tr = "map (encode_row col ?cl) X_train" and ?te = "map (encode_row col ?cl) X_test"
  have seen: "\<forall>r \<in> set X_test. astype_str (fst col r) \<in> (\<lambda>t. astype_str (fst col t)) ` set X_train"
  proof (rule ccontr)
    assume "\<not> ?thesis"
    then have "\<exists>r \<in> set X_test. astype_str (fst col r) \<notin> (\<lambda>t. astype_str (fst col t)) ` set X_train"
      by blast
    from encode_columns_unseen [OF this, of cols] obtain u where
      "encode_columns (col # cols) (X_train, X_test) =
         ((map (encode_row col ?cl) X_train, X_test), Some (UnseenLabel u))" ..
    with Cons.prems(3) show False by (simp only: snd_conv) simp
  qed
  have step: "encode_columns (col # cols) (X_train, X_test) = encode_columns cols (?tr, ?te)"
    by (rule encode_columns_seen [OF seen])
  have keep: "fst c (encode_row col ?cl t) = fst c t" if "c \<in> set cols" for c t
    using Cons.prems(1) [of col c] that Cons.prems(2) by auto
  have same: "encode_row c (column_classes c ?tr) = encode_row c (column_classes c X_train)"
    if "c \<in> set cols" for c
    using column_classes_cong [of c "encode_row col ?cl" X_train] keep [OF that] by simp
  have fold_eq: "encode_cats cols ?tr t = encode_cats cols X_train t" for t
    unfolding encode_cats_def by (rule fold_cong) (simp_all add: same)
  have cons: "encode_cats (col # cols) X_train t = encode_cats cols X_train (encode_row col ?cl t)" for t
    by (simp add: encode_cats_def)
  have none: "snd (encode_columns cols (?tr, ?te)) = None"
    using Cons.prems(3) by (simp only: step)
  have ind: "\<And>c c' r cl. c \<in> set cols \<Longrightarrow> c' \<in> set cols \<Longrightarrow> c \<noteq> c' \<Longrightarrow>
             fst c' (encode_row c cl r) = fst c' r"
    using Cons.prems(1) by simp
  have dist: "distinct cols"
    using Cons.prems(2) by simp
  have "fst (encode_columns (col # cols) (X_train, X_test)) = fst (encode_columns cols (?tr, ?te))"
    by (simp only: step)
  also have "\<dots> = (map (encode_cats cols ?tr) ?tr, map (encode_cats cols ?tr) ?te)"
    by (rule Cons.IH [OF ind dist none])
  also have "\<dots> = (map (encode_cats (col # cols) X_train) X_train,
                     map (encode_cats (col # cols) X_train) X_test)"
    by (simp add: fold_eq cons)
  finally show ?case .
qed

subsection \<open>The three categorical columns\<close>

lemma cats_independent:
  "c \<in> set cats \<Longrightarrow> c' \<in> set cats \<Longrightarrow> c \<noteq> c' \<Longrightarrow> fst c' (encode_row c cl r) = fst c' r"
  by (auto simp: cats_def encode_row_def)

lemma getters_differ:
  "Gender \<noteq> MaritalStatus" "Gender \<noteq> PartTimeFullTime" "MaritalStatus \<noteq> PartTimeFullTime"
proof -
  let ?r = "undefined\<lparr>Gender := Code 0, MaritalStatus := Code 1, PartTimeFullTime := Code 2\<rparr>"
  have "Gender ?r \<noteq> MaritalStatus ?r" "Gender ?r \<noteq> PartTimeFullTime ?r"
    "MaritalStatus ?r \<noteq> PartTimeFullTime ?r"
    by simp_all
  then show "Gender \<noteq> MaritalStatus" "Gender \<noteq> PartTimeFullTime" "MaritalStatus \<noteq> PartTimeFullTime"
    by metis+
qed

lemma distinct_cats: "distinct cats"
  using getters_differ by (auto simp: cats_def)

lemma encode_cats_row:
  "encode_cats cats X r =
     r\<lparr>Gender := Code (label_index (column_classes (Gender, Gender_update) X) (astype_str (Gender r))),
       MaritalStatus :=
         Code (label_index (column_classes (MaritalStatus, MaritalStatus_update) X)
                (astype_str (MaritalStatus r))),
       PartTimeFullTime :=
         Code (label_index (column_classes (PartTimeFullTime, PartTimeFullTime_update) X)
                (astype_str (PartTimeFullTime r)))\<rparr>"
  by (simp add: encode_cats_def cats_def encode_row_def)

lemma encode_and_impute_Inr:
  assumes "encode_and_impute X_train X_test = (args, Inr (R_train, R_test))"
  shows "args = (map (encode_cats cats X_train) X_train, map (encode_cats cats X_train) X_test)"
    and "R_train = fillna (fst args)" and "R_test = fillna (snd args)"
proof -
  from assms have none: "snd (encode_columns cats (X_train, X_test)) = None"
    and args: "args = fst (encode_columns cats (X_train, X_test))"
    and res: "R_train = fillna (fst args)" "R_test = fillna (snd args)"
    by (auto simp: encode_and_impute_def split: prod.splits option.splits)
  show "args = (map (encode_cats cats X_train) X_train, map (encode_cats cats X_train) X_test)"
    using encode_columns_None [OF cats_independent distinct_cats none] args by simp
  show "R_train = fillna (fst args)" "R_test = fillna (snd args)"
    by (rule res)+
qed

lemma encode_and_impute_seen:
  assumes "\<forall>col \<in> set cats. \<forall>r \<in> set X_test.
             astype_str (fst col r) \<in> (\<lambda>t. astype_str (fst col t)) ` set X_train"
  shows "\<exists>args res. encode_and_impute X_train X_test = (args, Inr res)"
proof -
  have "\<not> (\<exists>u. snd (encode_columns cols (X, Y)) = Some (UnseenLabel u))" if
    "\<forall>col \<in> set cols. \<forall>r \<in> set Y. astype_str (fst col r) \<in> (\<lambda>t. astype_str (fst col t)) ` set X"
    "set cols \<subseteq> set cats" "distinct cols" for cols X Y
    using that
  proof (induction cols arbitrary: X Y)
    case Nil
    then show ?case by simp
  next
    case (Cons col cols)
    let ?cl = "column_classes col X"
    have seen: "\<forall>r \<in> set Y. astype_str (fst col r) \<in> (\<lambda>t. astype_str (fst col t)) ` set X"
      using Cons.prems(1) by simp
    have keep: "fst c (encode_row col ?cl t) = fst c t" if "c \<in> set cols" for c t
      using cats_independent [of col c] that Cons.prems(2,3) by auto
    have "\<forall>c \<in> set cols. \<forall>r \<in> set (map (encode_row col ?cl) Y).
            astype_str (fst c r) \<in> (\<lambda>t. astype_str (fst c t)) ` set (map (encode_row col ?cl) X)"
      using Cons.prems(1) keep by (auto simp: image_iff)
    moreover have "set cols \<subseteq> set cats" "distinct cols"
      using Cons.prems(2,3) by simp_all
    ultimately have "\<not> (\<exists>u. snd (encode_columns cols
        (map (encode_row col ?cl) X, map (encode_row col ?cl) Y)) = Some (UnseenLabel u))"
      by (rule Cons.IH)
    then show ?case
      by (simp add: encode_columns_seen [OF seen, of cols] del: encode_columns.simps)
  qed
  from this [of cats X_test X_train] assms distinct_cats
  have "\<not> (\<exists>u. snd (encode_columns cats (X_train, X_test)) = Some (UnseenLabel u))"
    by simp
  moreover have "snd (encode_columns cols (X, Y)) = Some e \<Longrightarrow> \<exists>u. e = UnseenLabel u" for cols X Y e
  proof (induction cols arbitrary: X Y)
    case Nil
    then show ?case by simp
  next
    case (Cons col cols)
    then show ?case
      by (auto simp: le_fit_transform_def Let_def le_transform_def
          split: sum.splits option.splits)
  qed
  ultimately have "snd (encode_columns cats (X_train, X_test)) = None"
    by (cases "snd (encode_columns cats (X_train, X_test))") auto
  then show ?thesis
    by (auto simp: encode_and_impute_def split: prod.splits option.splits)
qed

subsection \<open>Unseen categories\<close>

text \<open>
  C4. If some test row holds in \<open>Gender\<close>, \<open>MaritalStatus\<close> or \<open>PartTimeFullTime\<close> a
  value whose text does not occur in the same column of the training table,
  \<open>encode_and_impute\<close> fails with the encoder's unseen-label error and returns no tables.
\<close>

theorem unseen_category_fails:
  assumes "\<exists>r \<in> set X_test.
             astype_str (Gender r) \<notin> (\<lambda>t. astype_str (Gender t)) ` set X_train \<or>
             astype_str (MaritalStatus r) \<notin> (\<lambda>t. astype_str (MaritalStatus t)) ` set X_train \<or>
             astype_str (PartTimeFullTime r) \<notin> (\<lambda>t. astype_str (PartTimeFullTime t)) ` set X_train"
  shows "\<exists>u. snd (encode_and_impute X_train X_test) = Inl (UnseenLabel u)"
proof -
  have "\<exists>col \<in> set cats. \<exists>r \<in> set X_test.
          astype_str (fst col r) \<notin> (\<lambda>t. astype_str (fst col t)) ` set X_train"
    using assms by (auto simp: cats_def)
  then obtain u where "snd (encode_columns cats (X_train, X_test)) = Some (UnseenLabel u)"
    using encode_columns_error [OF _ cats_independent distinct_cats] by blast
  then show ?thesis
    by (auto simp: encode_and_impute_def split: prod.splits option.splits)
qed

lemma column_classes_example:
  "column_classes (Gender, Gender_update) [example_features (Text ''M'') m p w] = [''M'']"
  by (simp add: column_classes_def get_column_def le_fit_def example_features_def)

text \<open>
  A test row with gender \<^verbatim>\<open>U\<close> against a training table that only has \<^verbatim>\<open>M\<close>.
\<close>

theorem unseen_category_witness:
  "snd (encode_and_impute [example_features (Text ''M'') (Text ''S'') (Text ''F'') NaN]
                          [example_features (Text ''U'') (Text ''S'') (Text ''F'') NaN]) =
   Inl (UnseenLabel ''U'')"
proof -
  let ?tr = "[example_features (Text ''M'') (Text ''S'') (Text ''F'') NaN]"
  let ?te = "[example_features (Text ''U'') (Text ''S'') (Text ''F'') NaN]"
  have h: "\<exists>r \<in> set ?te.
             astype_str (Gender r) \<notin> (\<lambda>t. astype_str (Gender t)) ` set ?tr \<or>
             astype_str (MaritalStatus r) \<notin> (\<lambda>t. astype_str (MaritalStatus t)) ` set ?tr \<or>
             astype_str (PartTimeFullTime r) \<notin> (\<lambda>t. astype_str (PartTimeFullTime t)) ` set ?tr"
    by (simp add: example_features_def)
  from unseen_category_fails [OF h] obtain u where
    u: "snd (encode_and_impute ?tr ?te) = Inl (UnseenLabel u)" ..
  moreover have "snd (encode_and_impute ?tr ?te) = Inl (UnseenLabel ''U'')"
    by (simp add: encode_and_impute_def cats_def le_fit_transform_def le_fit_def le_transform_def
        get_column_def example_features_def Let_def)
  ultimately show ?thesis by simp
qed

subsection \<open>The encoding as a function of the observed categories\<close>

text \<open>
  A turn of the loop in terms of the fitted classes, and the test table's side of the
  whole loop: it depends on the training table only through the classes of its columns.
\<close>

lemma encode_columns_step:
  "encode_columns (col # cols) (X, T) =
     (case le_transform (column_classes col X) (map astype_str (get_column col T)) of
        Inl e \<Rightarrow> ((map (encode_row col (column_classes col X)) X, T), Some e)
      | Inr codes \<Rightarrow>
          encode_columns cols (map (encode_row col (column_classes col X)) X, set_column col codes T))"
  by (simp only: encode_columns.simps le_fit_transform_def Let_def prod.case set_column_codes
      flip: column_classes_def)

lemma encode_columns_test_side:
  assumes "\<forall>col \<in> set cols. column_classes col X1 = column_classes col X2"
    and "\<And>c c' r cl. c \<in> set cols \<Longrightarrow> c' \<in> set cols \<Longrightarrow> c \<noteq> c' \<Longrightarrow>
             fst c' (encode_row c cl r) = fst c' r"
    and "distinct cols"
  shows "snd (fst (encode_columns cols (X1, T))) = snd (fst (encode_columns cols (X2, T))) \<and>
         snd (encode_columns cols (X1, T)) = snd (encode_columns cols (X2, T))"
  using assms
proof (induction cols arbitrary: X1 X2 T)
  case Nil
  then show ?case by simp
next
  case (Cons col cols)
  let ?cl = "column_classes col X1"
  have cl: "column_classes col X2 = ?cl"
    using Cons.prems(1) by simp
  show ?case
  proof (cases "le_transform ?cl (map astype_str (get_column col T))")
    case (Inl e)
    then show ?thesis
      by (simp only: encode_columns_step cl sum.case fst_conv snd_conv)
  next
    case (Inr codes)
    let ?X1 = "map (encode_row col ?cl) X1" and ?X2 = "map (encode_row col ?cl) X2"
    have keep: "fst c (encode_row col ?cl t) = fst c t" if "c \<in> set cols" for c t
      using Cons.prems(2) [of col c] that Cons.prems(3) by auto
    have "\<forall>c \<in> set cols. column_classes c ?X1 = column_classes c ?X2"
    proof
      fix c assume c: "c \<in> set cols"
      have "column_classes c ?X1 = column_classes c X1" "column_classes c ?X2 = column_classes c X2"
        using column_classes_cong [of c "encode_row col ?cl"] keep [OF c] by simp_all
      then show "column_classes c ?X1 = column_classes c ?X2"
        using Cons.prems(1) c by simp
    qed
    moreover have "\<And>c c' r cl. c \<in> set cols \<Longrightarrow> c' \<in> set cols \<Longrightarrow> c \<noteq> c' \<Longrightarrow>
             fst c' (encode_row c cl r) = fst c' r"
      using Cons.prems(2) by simp
    moreover have "distinct cols"
      using Cons.prems(3) by simp
    ultimately have "snd (fst (encode_columns cols (?X1, set_column col codes T))) =
                     snd (fst (encode_columns cols (?X2, set_column col codes T))) \<and>
                     snd (encode_columns cols (?X1, set_column col codes T)) =
                     snd (encode_columns cols (?X2, set_column col codes T))"
      by (rule Cons.IH)
    then show ?thesis
      by (simp only: encode_columns_step cl Inr sum.case)
  qed
qed

lemma encode_and_impute_by_columns:
  "snd (fst (encode_and_impute X T)) = snd (fst (encode_columns cats (X, T)))"
  "map_sum id snd (snd (encode_and_impute X T)) =
     (case snd (encode_columns cats (X, T)) of
        Some e \<Rightarrow> Inl e
      | None \<Rightarrow> Inr (fillna (snd (fst (encode_columns cats (X, T))))))"
  by (simp_all add: encode_and_impute_def split: prod.splits option.splits)

lemma column_classes_set_eq:
  "set (map astype_str (get_column col X1)) = set (map astype_str (get_column col X2)) \<Longrightarrow>
   column_classes col X1 = column_classes col X2"
  unfolding column_classes_def by (rule le_fit_set_eq)

text \<open>
  C7. The fitted encoding depends only on the set of categories observed in the training
  column: two training columns with the same set of values give the same classes, the
  same code for every value, and the same outcome of \<^verbatim>\<open>transform\<close> on any test column.
  Fitting or transforming again with the same inputs therefore gives the same result.
  In \<open>encode_and_impute\<close>: if such columns are the text of a categorical column of two
  training tables, the classes fitted for that column are the same, and two training
  tables that show the same set of values in each categorical column lead, for any test
  table, to the same encoded test table or the same error.
\<close>

theorem encoding_depends_on_observed_set:
  assumes "set train1 = set train2"
  shows "le_fit train1 = le_fit train2 \<and>
         fst (le_fit_transform train1) = fst (le_fit_transform train2) \<and>
         (\<forall>v. label_index (le_fit train1) v = label_index (le_fit train2) v) \<and>
         le_transform (le_fit train1) test = le_transform (le_fit train2) test \<and>
         (\<forall>col \<in> set cats. \<forall>X1 X2.
            map astype_str (get_column col X1) = train1 \<and>
            map astype_str (get_column col X2) = train2 \<longrightarrow>
            column_classes col X1 = column_classes col X2) \<and>
         (\<forall>X1 X2 T.
            (\<forall>col \<in> set cats. set (map astype_str (get_column col X1)) =
                                set (map astype_str (get_column col X2))) \<longrightarrow>
            snd (fst (encode_and_impute X1 T)) = snd (fst (encode_and_impute X2 T)) \<and>
            map_sum id snd (snd (encode_and_impute X1 T)) =
              map_sum id snd (snd (encode_and_impute X2 T)))"
proof -
  have old: "le_fit train1 = le_fit train2 \<and>
         fst (le_fit_transform train1) = fst (le_fit_transform train2) \<and>
         (\<forall>v. label_index (le_fit train1) v = label_index (le_fit train2) v) \<and>
         le_transform (le_fit train1) test = le_transform (le_fit train2) test"
    using le_fit_set_eq [OF assms] by (simp add: le_fit_transform_def Let_def)
  have cols: "\<forall>col \<in> set cats. \<forall>X1 X2.
            map astype_str (get_column col X1) = train1 \<and>
            map astype_str (get_column col X2) = train2 \<longrightarrow>
            column_classes col X1 = column_classes col X2"
    using le_fit_set_eq [OF assms] by (auto simp: column_classes_def)
  have tables: "snd (fst (encode_and_impute X1 T)) = snd (fst (encode_and_impute X2 T)) \<and>
            map_sum id snd (snd (encode_and_impute X1 T)) =
              map_sum id snd (snd (encode_and_impute X2 T))"
    if "\<forall>col \<in> set cats. set (map astype_str (get_column col X1)) =
                           set (map astype_str (get_column col X2))" for X1 X2 T
  proof -
    have "\<forall>col \<in> set cats. column_classes col X1 = column_classes col X2"
      using that column_classes_set_eq by blast
    from encode_columns_test_side [OF this cats_independent distinct_cats, of T]
    have a: "snd (fst (encode_columns cats (X1, T))) = snd (fst (encode_columns cats (X2, T)))"
      and b: "snd (encode_columns cats (X1, T)) = snd (encode_columns cats (X2, T))"
      by simp_all
    show ?thesis
      by (simp only: encode_and_impute_by_columns a b)
  qed
  show ?thesis
    using old cols tables by blast
qed

text \<open>
  The columns \<^verbatim>\<open>M, F, M\<close> and \<^verbatim>\<open>F, M\<close> fit the same encoding, and training tables
  with these gender columns encode a test row alike.
\<close>

theorem encoding_observed_set_witness:
  "le_fit [''M'', ''F'', ''M''] = [''F'', ''M''] \<and> le_fit [''F'', ''M''] = [''F'', ''M''] \<and>
   le_transform (le_fit [''M'', ''F'', ''M'']) [''M'', ''F''] = Inr [1, 0] \<and>
   le_transform (le_fit [''F'', ''M'']) [''M'', ''F''] = Inr [1, 0] \<and>
   map_sum id snd (snd (encode_and_impute
          [example_features (Text ''M'') (Text ''S'') (Text ''F'') NaN,
           example_features (Text ''F'') (Text ''S'') (Text ''F'') NaN,
           example_features (Text ''M'') (Text ''S'') (Text ''F'') NaN]
          [example_features (Text ''M'') (Text ''S'') (Text ''F'') (Fin 15)])) =
     Inr [(example_features (Code 1) (Code 0) (Code 0) (Fin 15))\<lparr>DependentsTotal := Fin 0\<rparr>] \<and>
   map_sum id snd (snd (encode_and_impute
          [example_features (Text ''F'') (Text ''S'') (Text ''F'') NaN,
           example_features (Text ''M'') (Text ''S'') (Text ''F'') NaN]
          [example_features (Text ''M'') (Text ''S'') (Text ''F'') (Fin 15)])) =
     Inr [(example_features (Code 1) (Code 0) (Code 0) (Fin 15))\<lparr>DependentsTotal := Fin 0\<rparr>]"
proof -
  let ?X1 = "[example_features (Text ''M'') (Text ''S'') (Text ''F'') NaN,
              example_features (Text ''F'') (Text ''S'') (Text ''F'') NaN,
              example_features (Text ''M'') (Text ''S'') (Text ''F'') NaN]"
  let ?X2 = "[example_features (Text ''F'') (Text ''S'') (Text ''F'') NaN,
              example_features (Text ''M'') (Text ''S'') (Text ''F'') NaN]"
  let ?T = "[example_features (Text ''M'') (Text ''S'') (Text ''F'') (Fin 15)]"
  have h: "set [''M'', ''F'', ''M''] = set [''F'', ''M'']"
    by auto
  note t = encoding_depends_on_observed_set [OF h, of "[''M'', ''F'']"]
  have fit: "le_fit [''F'', ''M''] = [''F'', ''M'']"
    by (simp add: le_fit_def)
  have tr: "le_transform [''F'', ''M''] [''M'', ''F''] = Inr [1, 0]"
    by (simp add: le_transform_def label_index_def)
  have same: "\<forall>col \<in> set cats. set (map astype_str (get_column col ?X1)) =
                                 set (map astype_str (get_column col ?X2))"
    by (auto simp: cats_def get_column_def example_features_def)
  have eq: "map_sum id snd (snd (encode_and_impute ?X1 ?T)) =
            map_sum id snd (snd (encode_and_impute ?X2 ?T))"
    using t [THEN conjunct2, THEN conjunct2, THEN conjunct2, THEN conjunct2, THEN conjunct2,
             THEN spec, THEN spec, THEN spec, THEN mp, OF same]
    by (rule conjunct2)
  have run: "map_sum id snd (snd (encode_and_impute ?X2 ?T)) =
     Inr [(example_features (Code 1) (Code 0) (Code 0) (Fin 15))\<lparr>DependentsTotal := Fin 0\<rparr>]"
    by (simp add: encode_and_impute_def cats_def le_fit_transform_def le_fit_def le_transform_def
        get_column_def set_column_def label_index_def example_features_def Let_def
        fillna_def fillna_row_def fill_float_def fill_category_def)
  show ?thesis
    using t [THEN conjunct1] fit tr eq run by simp
qed

subsection \<open>Effect on the argument tables\<close>

lemma fillna_nth: "i < length X \<Longrightarrow> fillna X ! i = fillna_row (X ! i)"
  by (simp add: fillna_def)

lemma encode_and_impute_effect:
  assumes "encode_and_impute X_train X_test = ((A_train, A_test), Inr (R_train, R_test))"
  shows "length A_train = length X_train \<and> length A_test = length X_test \<and>
         (\<forall>i < length X_train.
            (\<forall>col \<in> set cats. fst col (A_train ! i) =
               Code (label_index (column_classes col X_train) (astype_str (fst col (X_train ! i))))) \<and>
            (\<forall>f \<in> set float_columns. f (A_train ! i) = f (X_train ! i))) \<and>
         (\<forall>i < length X_test.
            (\<forall>col \<in> set cats. fst col (A_test ! i) =
               Code (label_index (column_classes col X_train) (astype_str (fst col (X_test ! i))))) \<and>
            (\<forall>f \<in> set float_columns. f (A_test ! i) = f (X_test ! i))) \<and>
         R_train = fillna A_train \<and> R_test = fillna A_test"
proof -
  have A: "A_train = map (encode_cats cats X_train) X_train"
    "A_test = map (encode_cats cats X_train) X_test"
    using encode_and_impute_Inr(1) [OF assms] by simp_all
  have R: "R_train = fillna A_train" "R_test = fillna A_test"
    using encode_and_impute_Inr(2,3) [OF assms] by simp_all
  have cat: "\<forall>col \<in> set cats. fst col (encode_cats cats X_train r) =
               Code (label_index (column_classes col X_train) (astype_str (fst col r)))" for r
    by (simp add: encode_cats_row) (simp add: cats_def)
  have flt: "\<forall>f \<in> set float_columns. f (encode_cats cats X_train r) = f r" for r
    by (simp add: encode_cats_row float_columns_def)
  show ?thesis
    using cat flt R by (simp add: A)
qed

text \<open>
  C9. After a successful call the two tables that were passed in are changed: in every
  row of both, each of the three categorical columns holds the integer code of its
  former value, while the numeric columns are as before (a missing value is still
  missing). The returned tables are new ones, the zero-filled copies of the changed
  arguments.
\<close>

theorem encode_and_impute_mutates_arguments:
  assumes "encode_and_impute X_train X_test = ((A_train, A_test), Inr (R_train, R_test))"
  shows "length A_train = length X_train \<and> length A_test = length X_test \<and>
         (\<forall>i < length X_train.
            (\<forall>col \<in> set cats. fst col (A_train ! i) =
               Code (label_index (column_classes col X_train) (astype_str (fst col (X_train ! i))))) \<and>
            (\<forall>f \<in> set float_columns. f (A_train ! i) = f (X_train ! i))) \<and>
         (\<forall>i < length X_test.
            (\<forall>col \<in> set cats. fst col (A_test ! i) =
               Code (label_index (column_classes col X_train) (astype_str (fst col (X_test ! i))))) \<and>
            (\<forall>f \<in> set float_columns. f (A_test ! i) = f (X_test ! i))) \<and>
         R_train = fillna A_train \<and> R_test = fillna A_test"
  by (rule encode_and_impute_effect [OF assms])


lemma example_encode:
  "encode_and_impute
     [example_features (Text ''M'') Missing (Code 1) NaN,
      example_features (Text ''F'') (Text ''S'') (Code 1) (Fin 15)]
     [example_features (Text ''F'') Missing (Code 1) NaN] =
   (([example_features (Code 1) (Code 1) (Code 0) NaN,
      example_features (Code 0) (Code 0) (Code 0) (Fin 15)],
     [example_features (Code 0) (Code 1) (Code 0) NaN]),
    Inr ([(example_features (Code 1) (Code 1) (Code 0) (Fin 0))\<lparr>DependentsTotal := Fin 0\<rparr>,
          (example_features (Code 0) (Code 0) (Code 0) (Fin 15))\<lparr>DependentsTotal := Fin 0\<rparr>],
         [(example_features (Code 0) (Code 1) (Code 0) (Fin 0))\<lparr>DependentsTotal := Fin 0\<rparr>]))"
  by (simp add: encode_and_impute_def cats_def le_fit_transform_def le_fit_def le_transform_def
      get_column_def set_column_def label_index_def example_features_def Let_def
      fillna_def fillna_row_def fill_float_def fill_category_def)

text \<open>
  A run on two training rows and one test row: the argument tables end up encoded but
  unfilled, the returned tables are their zero-filled copies.
\<close>

theorem encode_and_impute_mutation_witness:
  "fst (encode_and_impute
     [example_features (Text ''M'') Missing (Code 1) NaN,
      example_features (Text ''F'') (Text ''S'') (Code 1) (Fin 15)]
     [example_features (Text ''F'') Missing (Code 1) NaN]) =
   ([example_features (Code 1) (Code 1) (Code 0) NaN,
     example_features (Code 0) (Code 0) (Code 0) (Fin 15)],
    [example_features (Code 0) (Code 1) (Code 0) NaN]) \<and>
   snd (encode_and_impute
     [example_features (Text ''M'') Missing (Code 1) NaN,
      example_features (Text ''F'') (Text ''S'') (Code 1) (Fin 15)]
     [example_features (Text ''F'') Missing (Code 1) NaN]) =
   Inr (fillna [example_features (Code 1) (Code 1) (Code 0) NaN,
                example_features (Code 0) (Code 0) (Code 0) (Fin 15)],
        fillna [example_features (Code 0) (Code 1) (Code 0) NaN])"
proof -
  note e = example_encode
  from encode_and_impute_mutates_arguments [OF e]
  have "[(example_features (Code 1) (Code 1) (Code 0) (Fin 0))\<lparr>DependentsTotal := Fin 0\<rparr>,
         (example_features (Code 0) (Code 0) (Code 0) (Fin 15))\<lparr>DependentsTotal := Fin 0\<rparr>] =
        fillna [example_features (Code 1) (Code 1) (Code 0) NaN,
                example_features (Code 0) (Code 0) (Code 0) (Fin 15)]"
    and "[(example_features (Code 0) (Code 1) (Code 0) (Fin 0))\<lparr>DependentsTotal := Fin 0\<rparr>] =
         fillna [example_features (Code 0) (Code 1) (Code 0) NaN]"
    by blast+
  then show ?thesis
    by (simp only: e fst_conv snd_conv)
qed

subsection \<open>Imputation\<close>

lemma fillna_row_filled:
  "(\<forall>f \<in> set float_columns. f (fillna_row r) = (if f r = NaN then Fin 0 else f r)) \<and>
   (\<forall>c \<in> set category_columns. c (fillna_row r) = (if c r = Missing then Code 0 else c r))"
  by (simp add: float_columns_def category_columns_def cats_def fillna_row_def fill_float_def
      fill_category_def)

lemma fillna_row_no_missing:
  "(\<forall>f \<in> set float_columns. f (fillna_row r) \<noteq> NaN) \<and>
   (\<forall>c \<in> set category_columns. c (fillna_row r) \<noteq> Missing)"
  by (simp add: float_columns_def category_columns_def cats_def fillna_row_def fill_float_def
      fill_category_def)

lemma wage_of_features:
  assumes "clean_and_engineer parse checks df = Inr eng" and "i < length df"
  shows "WagePerHour (map select_features eng ! i) =
         fdiv (claim_record.WeeklyWages (df ! i)) (replace_zero_nan (claim_record.HoursWorkedPerWeek (df ! i)))"
proof -
  from clean_and_engineer_rows(2) [OF assms] obtain a d where
    "eng ! i = engineer_row (df ! i) a d"
    by blast
  then show ?thesis
    using clean_and_engineer_rows(1) [OF assms(1)] assms(2)
    by (simp add: select_features_def engineer_row_def)
qed

text \<open>
  C5. When \<open>encode_and_impute\<close> returns, both returned tables have the rows of the
  arguments, every numeric cell is the argument's cell with a missing value replaced by
  zero, and no cell of any column is missing. In particular, when the training table comes
  from \<open>clean_and_engineer\<close>, a row with \<open>HoursWorkedPerWeek = 0\<close> ends with
  \<open>WagePerHour = 0\<close> and a row with \<open>WeeklyWages = 600\<close> and \<open>HoursWorkedPerWeek = 40\<close>
  ends with \<open>WagePerHour = 15\<close>.
\<close>

theorem missing_values_become_zero:
  assumes "encode_and_impute X_train X_test = (args, Inr (R_train, R_test))"
  shows "length R_train = length X_train \<and> length R_test = length X_test \<and>
         (\<forall>i < length X_train. \<forall>f \<in> set float_columns.
            f (R_train ! i) = (if f (X_train ! i) = NaN then Fin 0 else f (X_train ! i))) \<and>
         (\<forall>i < length X_test. \<forall>f \<in> set float_columns.
            f (R_test ! i) = (if f (X_test ! i) = NaN then Fin 0 else f (X_test ! i))) \<and>
         (\<forall>r \<in> set R_train \<union> set R_test.
            (\<forall>f \<in> set float_columns. f r \<noteq> NaN) \<and> (\<forall>c \<in> set category_columns. c r \<noteq> Missing)) \<and>
         (\<forall>parse checks df eng i.
            clean_and_engineer parse checks (df :: 'x claim_record list) = Inr eng \<and>
            X_train = map select_features eng \<and> i < length df \<longrightarrow>
            (claim_record.HoursWorkedPerWeek (df ! i) = Fin 0 \<longrightarrow> WagePerHour (R_train ! i) = Fin 0) \<and>
            (claim_record.WeeklyWages (df ! i) = Fin 600 \<and>
             claim_record.HoursWorkedPerWeek (df ! i) = Fin 40 \<longrightarrow>
               WagePerHour (R_train ! i) = Fin 15))"
proof -
  obtain A_train A_test where args: "args = (A_train, A_test)"
    by (cases args)
  note m = encode_and_impute_effect [OF assms [unfolded args]]
  have len: "length A_train = length X_train" "length A_test = length X_test"
    and R: "R_train = fillna A_train" "R_test = fillna A_test"
    using m by simp_all
  have Atr: "\<forall>f \<in> set float_columns. f (A_train ! i) = f (X_train ! i)" if "i < length X_train" for i
    using m that by blast
  have Ate: "\<forall>f \<in> set float_columns. f (A_test ! i) = f (X_test ! i)" if "i < length X_test" for i
    using m that by blast
  have Ctr: "\<forall>c \<in> set category_columns. \<exists>k. c (A_train ! i) = Code k" if "i < length X_train" for i
    using m that by (simp add: category_columns_def)
  have Cte: "\<forall>c \<in> set category_columns. \<exists>k. c (A_test ! i) = Code k" if "i < length X_test" for i
    using m that by (simp add: category_columns_def)
  have 1: "\<forall>f \<in> set float_columns.
             f (R_train ! i) = (if f (X_train ! i) = NaN then Fin 0 else f (X_train ! i))"
    if "i < length X_train" for i
  proof
    fix f assume f: "f \<in> set float_columns"
    have "f (A_train ! i) = f (X_train ! i)"
      using Atr [OF that] f by (rule bspec)
    moreover have "f (fillna_row (A_train ! i)) = (if f (A_train ! i) = NaN then Fin 0 else f (A_train ! i))"
      using fillna_row_filled [of "A_train ! i"] f by blast
    ultimately show "f (R_train ! i) = (if f (X_train ! i) = NaN then Fin 0 else f (X_train ! i))"
      using that by (simp add: R fillna_nth len)
  qed
  have 2: "\<forall>f \<in> set float_columns.
             f (R_test ! i) = (if f (X_test ! i) = NaN then Fin 0 else f (X_test ! i))"
    if "i < length X_test" for i
  proof
    fix f assume f: "f \<in> set float_columns"
    have "f (A_test ! i) = f (X_test ! i)"
      using Ate [OF that] f by (rule bspec)
    moreover have "f (fillna_row (A_test ! i)) = (if f (A_test ! i) = NaN then Fin 0 else f (A_test ! i))"
      using fillna_row_filled [of "A_test ! i"] f by blast
    ultimately show "f (R_test ! i) = (if f (X_test ! i) = NaN then Fin 0 else f (X_test ! i))"
      using that by (simp add: R fillna_nth len)
  qed
  have 3: "(\<forall>f \<in> set float_columns. f r \<noteq> NaN) \<and> (\<forall>c \<in> set category_columns. c r \<noteq> Missing)"
    if "r \<in> set R_train \<union> set R_test" for r
  proof -
    from that obtain a where "r = fillna_row a"
      by (auto simp: R fillna_def)
    then show ?thesis
      using fillna_row_no_missing [of a] by simp
  qed
  have 4: "(claim_record.HoursWorkedPerWeek (df ! i) = Fin 0 \<longrightarrow> WagePerHour (R_train ! i) = Fin 0) \<and>
            (claim_record.WeeklyWages (df ! i) = Fin 600 \<and>
             claim_record.HoursWorkedPerWeek (df ! i) = Fin 40 \<longrightarrow>
               WagePerHour (R_train ! i) = Fin 15)"
    if "clean_and_engineer parse checks (df :: 'x claim_record list) = Inr eng"
      and "X_train = map select_features eng" and "i < length df" for parse checks df eng i
  proof -
    have i: "i < length X_train"
      using that clean_and_engineer_rows(1) [OF that(1)] by simp
    have "WagePerHour (R_train ! i) = (if WagePerHour (X_train ! i) = NaN then Fin 0 else WagePerHour (X_train ! i))"
      using 1 [OF i] by (simp add: float_columns_def)
    moreover have "WagePerHour (X_train ! i) =
         fdiv (claim_record.WeeklyWages (df ! i)) (replace_zero_nan (claim_record.HoursWorkedPerWeek (df ! i)))"
      using wage_of_features [OF that(1,3)] that(2) by simp
    ultimately show ?thesis
      by (auto simp: replace_zero_nan_def fdiv_NaN_right round64_examples)
  qed
  show ?thesis
    using 1 2 3 4 len by (simp add: R fillna_def) blast
qed

text \<open>
  The scenario of the specification: two training rows, 600 over 40 hours and 0 over 0
  hours, end with wages per hour 15 and 0.
\<close>

theorem missing_values_witness:
  "\<exists>eng args R S.
     clean_and_engineer example_parse no_column_errors
       [example_claim ''2020-03-01 07:00:00'' ''2020-03-04 12:00:00'' 600 40 (),
        example_claim ''2020-03-01 07:00:00'' ''2020-03-04 12:00:00'' 0 0 ()] = Inr eng \<and>
     encode_and_impute (map select_features eng) [] = (args, Inr (R, S)) \<and>
     map WagePerHour R = [Fin 15, Fin 0]"
proof -
  let ?df = "[example_claim ''2020-03-01 07:00:00'' ''2020-03-04 12:00:00'' 600 40 (),
              example_claim ''2020-03-01 07:00:00'' ''2020-03-04 12:00:00'' 0 0 ()]"
  have h: "\<forall>r \<in> set ?df. (\<exists>a. parse_cell example_parse (claim_record.DateTimeOfAccident r) = Inr a) \<and>
                           (\<exists>d. parse_cell example_parse (claim_record.DateReported r) = Inr d)"
    by (simp add: example_claim_def example_parse_cell)
  obtain eng where eng: "clean_and_engineer example_parse no_column_errors ?df = Inr eng"
    using clean_and_engineer_total [OF h] ..
  have len: "length eng = 2"
    using clean_and_engineer_rows(1) [OF eng] by simp
  obtain args res where "encode_and_impute (map select_features eng) [] = (args, Inr res)"
    using encode_and_impute_seen [of "[]" "map select_features eng"] by auto
  then obtain R S where enc: "encode_and_impute (map select_features eng) [] = (args, Inr (R, S))"
    by (cases res) auto
  note t = missing_values_become_zero [OF enc, where 'x = unit]
  have lenR: "length R = 2"
    using t [THEN conjunct1] len by simp
  note last = t [THEN conjunct2, THEN conjunct2, THEN conjunct2, THEN conjunct2, THEN conjunct2]
  have rows: "(claim_record.HoursWorkedPerWeek (?df ! i) = Fin 0 \<longrightarrow> WagePerHour (R ! i) = Fin 0) \<and>
            (claim_record.WeeklyWages (?df ! i) = Fin 600 \<and>
             claim_record.HoursWorkedPerWeek (?df ! i) = Fin 40 \<longrightarrow>
               WagePerHour (R ! i) = Fin 15)" if "i < length ?df" for i
    by (rule last [rule_format, OF conjI [OF eng conjI [OF refl that]]])
  have "WagePerHour (R ! 0) = Fin 15"
    using rows [of 0] by (simp add: example_claim_def)
  moreover have "WagePerHour (R ! 1) = Fin 0"
    using rows [of 1] by (simp add: example_claim_def)
  ultimately have wages: "map WagePerHour R = [Fin 15, Fin 0]"
    by (simp add: two_rows [OF lenR])
  show ?thesis
    by (intro exI conjI) (fact eng, fact enc, fact wages)
qed

section \<open>The pipeline driver: results\<close>






end
